theory Spec2Isabelle
  imports
    Complex_Main
    "HOL-Library.Word"
    "HOL-Library.Char_ord"
    "HOL-Library.List_Lexorder"
    "HOL-Library.Multiset"
    "HOL-Library.AList"
begin

section \<open>Errors and the Go standard library\<close>

text \<open>
  A Go \<open>error\<close> is a value.  \<open>External\<close> stands for an error produced outside the
  repository (the operating system, the Docker client, \<open>database/sql\<close>, the compose
  loader, a subprocess); the other constructors are the errors the manager builds with
  \<open>fmt.Errorf\<close>: \<open>Wrapped prefix err\<close> is \<open>prefix: err\<close>, and
  \<open>WrappedOutput prefix err output\<close> is \<open>prefix: err (output: output)\<close>.
\<close>

datatype error =
    External string
  | ProjectNotFound string
  | ProtectedStop string string
  | ProtectedRestart string string
  | Wrapped string error
  | WrappedOutput string error string

text \<open>
  A \<open>rune\<close> is a Unicode code point.  The functions of Go's standard library that the
  code calls and that read Unicode tables, the file-path syntax or a hash are not part of
  the repository; they enter the model as the fields of one record, and every theorem
  below holds for all of them.  \<open>RangeRunes s\<close> is the sequence of runes a
  \<open>for _, r := range s\<close> loop yields and \<open>EncodeRune r\<close> the UTF-8 bytes of a rune;
  \<open>Dir\<close>, \<open>Base\<close>, \<open>Ext\<close>, \<open>Clean\<close> and \<open>Match\<close> are those of package
  \<open>path/filepath\<close>, with \<open>None\<close> for the \<open>ErrBadPattern\<close> of \<open>Match\<close>; \<open>Sha256Hex\<close> is
  the hexadecimal SHA-256 digest.
\<close>

type_synonym rune = nat

record GoLib =
  ToLower :: "string \<Rightarrow> string"
  TrimSpace :: "string \<Rightarrow> string"
  RangeRunes :: "string \<Rightarrow> rune list"
  EncodeRune :: "rune \<Rightarrow> string"
  Dir :: "string \<Rightarrow> string"
  Base :: "string \<Rightarrow> string"
  Ext :: "string \<Rightarrow> string"
  Clean :: "string \<Rightarrow> string"
  Match :: "string \<Rightarrow> string \<Rightarrow> bool option"
  Sha256Hex :: "string \<Rightarrow> string"

text \<open>The byte-level functions of package \<open>strings\<close> are written out.\<close>

definition HasPrefix :: "string \<Rightarrow> string \<Rightarrow> bool" where
  "HasPrefix s pre = (take (length pre) s = pre)"

definition TrimSuffix :: "string \<Rightarrow> string \<Rightarrow> string" where
  "TrimSuffix s suffix =
     (if length suffix \<le> length s \<and> drop (length s - length suffix) s = suffix
      then take (length s - length suffix) s else s)"

fun Contains :: "string \<Rightarrow> string \<Rightarrow> bool" where
  "Contains [] substr = (substr = [])"
| "Contains (c # s) substr = (HasPrefix (c # s) substr \<or> Contains s substr)"

definition ReplaceAll :: "string \<Rightarrow> char \<Rightarrow> char \<Rightarrow> string" where
  "ReplaceAll s old new = map (\<lambda>c. if c = old then new else c) s"

definition Trim :: "string \<Rightarrow> string \<Rightarrow> string" where
  "Trim s cutset =
     rev (dropWhile (\<lambda>c. c \<in> set cutset) (rev (dropWhile (\<lambda>c. c \<in> set cutset) s)))"

text \<open>
  An instance of the library record for evaluating the model: exact on ASCII strings and
  on clean slash-separated paths of at least two elements; its \<open>Match\<close> knows patterns
  without metacharacters only, and its digest is a stand-in.
\<close>

definition asciiLower :: "char \<Rightarrow> char" where
  "asciiLower c =
     (if CHR ''A'' \<le> c \<and> c \<le> CHR ''Z'' then char_of (of_char c + (32::nat)) else c)"

definition asciiSpace :: "char \<Rightarrow> bool" where
  "asciiSpace c = (c = CHR '' '' \<or> c = CHR 0x09 \<or> c = CHR 0x0A \<or> c = CHR 0x0D)"

definition asciiLib :: GoLib where
  "asciiLib =
     \<lparr>ToLower = map asciiLower,
      TrimSpace = (\<lambda>s. rev (dropWhile asciiSpace (rev (dropWhile asciiSpace s)))),
      RangeRunes = map of_char,
      EncodeRune = (\<lambda>r. [char_of r]),
      Dir = (\<lambda>p. rev (drop 1 (dropWhile (\<lambda>c. c \<noteq> CHR ''/'') (rev p)))),
      Base = (\<lambda>p. rev (takeWhile (\<lambda>c. c \<noteq> CHR ''/'') (rev p))),
      Ext = (\<lambda>p. if CHR ''.'' \<in> set (takeWhile (\<lambda>c. c \<noteq> CHR ''/'') (rev p))
                 then CHR ''.'' # rev (takeWhile (\<lambda>c. c \<noteq> CHR ''.'') (rev p)) else []),
      Clean = (\<lambda>p. p),
      Match = (\<lambda>pattern name. Some (pattern = name)),
      Sha256Hex = (\<lambda>s. s @ ''0000000000000000'')\<rparr>"

section \<open>Data model (internal/model/types.go)\<close>

text \<open>
  Go strings are byte strings and are modelled as \<^typ>\<open>string\<close>; with
  \<open>Char_ord\<close> and \<open>List_Lexorder\<close> the order on \<^typ>\<open>string\<close> is the bytewise
  lexicographic order of Go's comparison operators.  A \<open>time.Time\<close> is an
  instant, modelled as an integer, and a \<open>float64\<close> is idealised as a real number.
  The string-typed enumerations
  \<open>Environment\<close> and \<open>ProjectStatus\<close> only ever hold their declared constants and
  are datatypes; \<open>ProtectionReason\<close> also holds the empty string and caller-supplied
  text, so it stays a string.
\<close>

type_synonym Time = int

type_synonym float64 = real

datatype Environment = EnvDevelopment | EnvProduction | EnvUnknown

datatype ProjectStatus = StatusRunning | StatusStopped | StatusPartial | StatusUnknown

type_synonym ProtectionReason = string

definition ProtectionCloudflareTunnel :: ProtectionReason where
  "ProtectionCloudflareTunnel = ''cloudflare_tunnel''"

definition ProtectionUserMarked :: ProtectionReason where
  "ProtectionUserMarked = ''user_marked''"

definition ProtectionAutoDetected :: ProtectionReason where
  "ProtectionAutoDetected = ''auto_detected''"

record PortMapping =
  HostIP :: string
  HostPort :: "16 word"
  ContainerPort :: "16 word"
  Protocol :: string

record ContainerStats =
  CPUPercent :: float64
  MemoryUsage :: "64 word"
  MemoryLimit :: "64 word"
  MemoryPercent :: float64
  NetworkRx :: "64 word"
  NetworkTx :: "64 word"
  BlockRead :: "64 word"
  BlockWrite :: "64 word"
  PIDs :: "64 word"
  Timestamp :: Time

record Container =
  ctr_ID :: string
  ctr_Name :: string
  ctr_ServiceName :: string
  ctr_Image :: string
  ctr_Status :: string
  ctr_State :: string
  ctr_Health :: string
  ctr_Ports :: "PortMapping list"
  ctr_Labels :: "(string \<times> string) list"
  ctr_Stats :: "ContainerStats option"
  ctr_CreatedAt :: Time
  ctr_StartedAt :: Time

record Project =
  ID :: string
  Name :: string
  DisplayName :: string
  Path :: string
  ComposeFile :: string
  ComposeFilePath :: string
  Environment :: Environment
  Status :: ProjectStatus
  Protected :: bool
  ProtectionReason :: ProtectionReason
  Hidden :: bool
  Containers :: "Container list"
  Services :: "string list"
  CreatedAt :: Time
  UpdatedAt :: Time

section \<open>Aggregate status (manager.go, determineProjectStatus)\<close>

text \<open>
  The loop keeps the two counters \<open>running\<close> and \<open>stopped\<close>; a state other than
  the four named ones changes neither.
\<close>

fun countStates :: "Container list \<Rightarrow> nat \<times> nat \<Rightarrow> nat \<times> nat" where
  "countStates [] (running, stopped) = (running, stopped)"
| "countStates (ctr # ctrs) (running, stopped) =
     (if ctr_State ctr = ''running'' then countStates ctrs (running + 1, stopped)
      else if ctr_State ctr = ''exited'' \<or> ctr_State ctr = ''dead'' \<or> ctr_State ctr = ''created''
        then countStates ctrs (running, stopped + 1)
      else countStates ctrs (running, stopped))"

definition determineProjectStatus :: "Container list \<Rightarrow> ProjectStatus" where
  "determineProjectStatus containers =
     (if length containers = 0 then StatusStopped
      else case countStates containers (0, 0) of
        (running, stopped) \<Rightarrow>
          if running = length containers then StatusRunning
          else if stopped = length containers then StatusStopped
          else StatusPartial)"

section \<open>Scanner (internal/scanner/finder.go, patterns.go)\<close>

subsection \<open>Project names\<close>

definition runeOf :: "char \<Rightarrow> rune" where
  "runeOf c = of_char c"

definition isLower :: "rune \<Rightarrow> bool" where
  "isLower r = (r \<ge> runeOf CHR ''a'' \<and> r \<le> runeOf CHR ''z'')"

definition isDigit :: "rune \<Rightarrow> bool" where
  "isDigit r = (r \<ge> runeOf CHR ''0'' \<and> r \<le> runeOf CHR ''9'')"

text \<open>
  \<open>RuneLen\<close> is the number of bytes of a rune's UTF-8 encoding: the index \<open>i\<close> of
  the range loop is a byte offset, zero at the first rune only.
\<close>

definition RuneLen :: "rune \<Rightarrow> nat" where
  "RuneLen r = (if r < 128 then 1 else if r < 2048 then 2 else if r < 65536 then 3 else 4)"

text \<open>
  The loop of \<open>sanitizeProjectName\<close>, with the contents of the string builder as the
  accumulator.  \<open>WriteRune\<close> is only reached with an ASCII rune, which is one byte.
\<close>

fun sanitizeLoop :: "nat \<Rightarrow> rune list \<Rightarrow> string \<Rightarrow> string" where
  "sanitizeLoop i [] result = result"
| "sanitizeLoop i (r # rs) result =
     (let result1 =
            (if isLower r \<or> isDigit r \<or> r = runeOf CHR ''-'' \<or> r = runeOf CHR ''_''
             then result @ [char_of r] else result @ ''-'');
          result2 = (if i = 0 \<and> \<not> isLower r \<and> \<not> isDigit r then ''p-'' else result1)
      in sanitizeLoop (i + RuneLen r) rs result2)"

definition sanitizeProjectName :: "GoLib \<Rightarrow> string \<Rightarrow> string" where
  "sanitizeProjectName lib name =
     (let name1 = ToLower lib name;
          name2 = ReplaceAll name1 CHR ''.'' CHR ''-'';
          sanitized = Trim (sanitizeLoop 0 (RangeRunes lib name2) []) ''-_''
      in if sanitized = [] then ''project'' else sanitized)"

definition deriveProjectName :: "GoLib \<Rightarrow> string \<Rightarrow> string" where
  "deriveProjectName lib composePath = sanitizeProjectName lib (Base lib (Dir lib composePath))"

text \<open>The first 8 bytes of the digest are its first 16 hexadecimal digits.\<close>

definition generateProjectID :: "GoLib \<Rightarrow> string \<Rightarrow> string" where
  "generateProjectID lib composePath = take 16 (Sha256Hex lib composePath)"

subsection \<open>Environment detection (patterns.go)\<close>

definition developmentPatterns :: "string list" where
  "developmentPatterns =
     [''dev'', ''development'', ''local'', ''test'', ''testing'', ''staging'', ''stage'', ''debug'']"

definition productionPatterns :: "string list" where
  "productionPatterns = [''prod'', ''production'', ''live'', ''release'', ''main'', ''master'']"

text \<open>
  The loop of \<open>splitByDelimiters\<close>: \<open>result\<close> is the slice built so far and
  \<open>current\<close> the contents of the string builder.
\<close>

fun splitLoop :: "GoLib \<Rightarrow> rune list \<Rightarrow> string list \<Rightarrow> string \<Rightarrow> string list \<times> string" where
  "splitLoop lib [] result current = (result, current)"
| "splitLoop lib (r # rs) result current =
     (if r = runeOf CHR ''-'' \<or> r = runeOf CHR ''_'' \<or> r = runeOf CHR ''.''
      then (if length current > 0 then splitLoop lib rs (result @ [current]) []
            else splitLoop lib rs result current)
      else splitLoop lib rs result (current @ EncodeRune lib r))"

definition splitByDelimiters :: "GoLib \<Rightarrow> string \<Rightarrow> string list" where
  "splitByDelimiters lib s =
     (case splitLoop lib (RangeRunes lib s) [] [] of
        (result, current) \<Rightarrow> if length current > 0 then result @ [current] else result)"

definition containsPattern :: "GoLib \<Rightarrow> string \<Rightarrow> string \<Rightarrow> bool" where
  "containsPattern lib s pattern =
     (if Contains s pattern then True
      else list_ex (\<lambda>part. part = pattern) (splitByDelimiters lib s))"

definition detectEnvironment :: "GoLib \<Rightarrow> string \<Rightarrow> Environment" where
  "detectEnvironment lib composePath =
     (let filename = ToLower lib (Base lib composePath);
          filenameWithoutExt = TrimSuffix filename (Ext lib filename);
          dir = ToLower lib (Base lib (Dir lib composePath))
      in if list_ex (containsPattern lib filenameWithoutExt) productionPatterns then EnvProduction
         else if list_ex (containsPattern lib filenameWithoutExt) developmentPatterns
           then EnvDevelopment
         else if list_ex (containsPattern lib dir) productionPatterns then EnvProduction
         else EnvDevelopment)"

subsection \<open>Heuristic protection by container name or image\<close>

definition cloudflarePatterns :: "string list" where
  "cloudflarePatterns =
     [''cloudflare'', ''cloudflared'', ''cf-tunnel'', ''cftunnel'', ''tunnel'', ''argo'']"

definition criticalPatterns :: "string list" where
  "criticalPatterns = [''traefik'', ''nginx-proxy'', ''reverse-proxy'', ''gateway'', ''ingress'']"

definition IsProtectedByPattern :: "GoLib \<Rightarrow> string \<Rightarrow> bool \<times> ProtectionReason" where
  "IsProtectedByPattern lib name =
     (let lower = ToLower lib name in
      if list_ex (Contains lower) cloudflarePatterns then (True, ProtectionCloudflareTunnel)
      else if list_ex (Contains lower) criticalPatterns then (True, ProtectionAutoDetected)
      else (False, []))"

subsection \<open>The scan cache\<close>

text \<open>
  What \<open>parseComposeFile\<close> reads from outside: \<open>os.Stat\<close> (the modification time),
  \<open>os.ReadFile\<close>, the two calls into the compose loader (\<open>cli.NewProjectOptions\<close> with
  the path and the project name, then \<open>LoadProject\<close>, which yields the names of the
  services), and the clock.
\<close>

record Host =
  Stat :: "string \<Rightarrow> error + Time"
  ReadFile :: "string \<Rightarrow> error + string"
  NewProjectOptions :: "string \<Rightarrow> string \<Rightarrow> error option"
  LoadProject :: "string \<Rightarrow> string \<Rightarrow> error + string list"
  Now :: Time

record CachedProject =
  cp_Project :: Project
  cp_ModTime :: Time
  cp_CheckSum :: string

text \<open>
  The scanner's state is its cache.  \<open>loaded\<close> is a ghost field, not in the source:
  the paths handed to the compose loader so far, so that a result obtained without
  parsing can be told from a parsed one.
\<close>

record Scanner =
  cache :: "string \<rightharpoonup> CachedProject"
  loaded :: "string list"

definition fileChecksum :: "GoLib \<Rightarrow> Host \<Rightarrow> string \<Rightarrow> error + string" where
  "fileChecksum lib host path =
     (case ReadFile host path of
        Inl err \<Rightarrow> Inl err
      | Inr data \<Rightarrow> Inr (Sha256Hex lib data))"

text \<open>
  The result of \<open>parseComposeFile\<close> is \<open>Inl err\<close> for \<open>(nil, err)\<close>, \<open>Inr None\<close> for
  \<open>(nil, nil)\<close> (not a compose file) and \<open>Inr (Some proj)\<close> for a project.
  \<open>parseFresh\<close> is the part of the function after the cache check: it is reached when
  there is no entry for the path, or the entry's modification time or checksum differs.
\<close>

definition parseFresh ::
  "GoLib \<Rightarrow> Host \<Rightarrow> Scanner \<Rightarrow> string \<Rightarrow> Time \<Rightarrow> string \<Rightarrow> (error + Project option) \<times> Scanner" where
  "parseFresh lib host s path modTime checksum =
     (let projectName = deriveProjectName lib path;
          s1 = s\<lparr>loaded := loaded s @ [path]\<rparr>
      in case NewProjectOptions host path projectName of
        Some err \<Rightarrow> (Inl err, s1)
      | None \<Rightarrow>
     (case LoadProject host path projectName of
        Inl err \<Rightarrow> (Inl err, s1)
      | Inr services \<Rightarrow>
          if length services = 0 then (Inr None, s1)
          else
            (let proj =
               \<lparr>ID = generateProjectID lib path,
                Name = projectName,
                DisplayName = [],
                Path = Dir lib path,
                ComposeFile = Base lib path,
                ComposeFilePath = path,
                Environment = detectEnvironment lib path,
                Status = StatusUnknown,
                Protected = False,
                ProtectionReason = [],
                Hidden = False,
                Containers = [],
                Services = services,
                CreatedAt = Now host,
                UpdatedAt = Now host\<rparr>
             in (Inr (Some proj),
                 s1\<lparr>cache := (cache s1)(path \<mapsto>
                   \<lparr>cp_Project = proj, cp_ModTime = modTime, cp_CheckSum = checksum\<rparr>)\<rparr>))))"

definition parseComposeFile ::
  "GoLib \<Rightarrow> Host \<Rightarrow> Scanner \<Rightarrow> string \<Rightarrow> (error + Project option) \<times> Scanner" where
  "parseComposeFile lib host s path =
     (case Stat host path of
        Inl err \<Rightarrow> (Inl err, s)
      | Inr modTime \<Rightarrow>
     (case fileChecksum lib host path of
        Inl err \<Rightarrow> (Inl err, s)
      | Inr checksum \<Rightarrow>
     (case cache s path of
        Some cached \<Rightarrow>
          if cp_ModTime cached = modTime \<and> cp_CheckSum cached = checksum
          then (Inr (Some (cp_Project cached)), s)
          else parseFresh lib host s path modTime checksum
      | None \<Rightarrow> parseFresh lib host s path modTime checksum)))"

section \<open>Protection policy (internal/project/protected.go)\<close>

record ProtectionConfig =
  Patterns :: "string list"
  Projects :: "string list"

definition normalizePath :: "GoLib \<Rightarrow> string \<Rightarrow> string" where
  "normalizePath lib path =
     (let path1 = Clean lib path in
      if HasPrefix path1 ''~/'' then path1 else TrimSuffix path1 ''/'')"

text \<open>The receiver may be nil: \<open>None\<close> is never protected.\<close>

definition IsProtected :: "GoLib \<Rightarrow> ProtectionConfig option \<Rightarrow> string \<Rightarrow> bool" where
  "IsProtected lib p projectPath =
     (case p of
        None \<Rightarrow> False
      | Some cfg \<Rightarrow>
          (let normalizedPath = normalizePath lib projectPath in
           if list_ex (\<lambda>protectedPath. normalizePath lib protectedPath = normalizedPath) (Projects cfg)
           then True
           else list_ex
             (\<lambda>pattern.
                Match lib (ToLower lib pattern) (ToLower lib (Base lib projectPath)) = Some True
                \<or> Contains (ToLower lib projectPath) (ToLower lib pattern))
             (Patterns cfg)))"

section \<open>Preference store (store.go)\<close>

text \<open>
  A row of table \<open>project_preferences\<close>, keyed by \<open>project_id\<close>: \<open>display_name\<close> may be
  NULL.  The database itself is outside the repository; \<open>failing\<close> says whether the handle
  answers the next statement with an error.
\<close>

record PrefRow =
  display_name :: "string option"
  hidden :: int

record ProjectPreference =
  pref_ProjectID :: string
  pref_DisplayName :: string
  pref_Hidden :: bool

record Store =
  rows :: "string \<rightharpoonup> PrefRow"
  failing :: bool

definition GetAllPreferences ::
  "Store \<Rightarrow> (string \<rightharpoonup> ProjectPreference) option \<times> error option" where
  "GetAllPreferences s =
     (if failing s then (None, Some (External ''sql''))
      else
        (Some (\<lambda>projectID.
           case rows s projectID of
             None \<Rightarrow> None
           | Some row \<Rightarrow>
               Some \<lparr>pref_ProjectID = projectID,
                     pref_DisplayName = (case display_name row of None \<Rightarrow> [] | Some n \<Rightarrow> n),
                     pref_Hidden = (hidden row = 1)\<rparr>),
         None))"

definition SetDisplayName :: "Store \<Rightarrow> string \<Rightarrow> string \<Rightarrow> error + Store" where
  "SetDisplayName s projectID displayName =
     (let nullName = (if displayName \<noteq> [] then Some displayName else None) in
      if failing s then Inl (External ''sql'')
      else Inr (s\<lparr>rows := (rows s)(projectID \<mapsto>
        (case rows s projectID of
           None \<Rightarrow> \<lparr>display_name = nullName, hidden = 0\<rparr>
         | Some row \<Rightarrow> row\<lparr>display_name := nullName\<rparr>))\<rparr>))"

definition SetHidden :: "Store \<Rightarrow> string \<Rightarrow> bool \<Rightarrow> error + Store" where
  "SetHidden s projectID hid =
     (let hiddenInt = (if hid then 1 else 0) in
      if failing s then Inl (External ''sql'')
      else Inr (s\<lparr>rows := (rows s)(projectID \<mapsto>
        (case rows s projectID of
           None \<Rightarrow> \<lparr>display_name = None, hidden = hiddenInt\<rparr>
         | Some row \<Rightarrow> row\<lparr>hidden := hiddenInt\<rparr>))\<rparr>))"

section \<open>Compose invocations (internal/docker/compose.go)\<close>

text \<open>
  The Docker side as the manager sees it during one operation: the answer of
  \<open>GetContainersByComposeProject\<close>, the name \<open>GetComposeProjectName\<close> resolves for a
  compose file, and what running \<open>docker\<close> in a directory with given arguments yields
  (standard output, standard error, and the error of \<open>cmd.Run\<close>, if any).
\<close>

record Docker =
  GetContainersByComposeProject :: "error + (string \<rightharpoonup> Container list)"
  GetComposeProjectName :: "string \<Rightarrow> string"
  RunDocker :: "string \<Rightarrow> string list \<Rightarrow> string \<times> string \<times> error option"

record ComposeResult =
  Success :: bool
  Output :: string
  ErrorText :: string

text \<open>A compose invocation that was issued: the working directory and the arguments.\<close>

record Invocation =
  inv_Dir :: string
  inv_Args :: "string list"

fun errorText :: "error \<Rightarrow> string" where
  "errorText (External msg) = msg"
| "errorText (ProjectNotFound pid) = ''project not found: '' @ pid"
| "errorText (ProtectedStop name reason) =
     ''project '' @ name @ '' is protected ('' @ reason @ '') - use force to override''"
| "errorText (ProtectedRestart name reason) =
     ''project '' @ name @ '' is protected ('' @ reason @ '') - cannot restart''"
| "errorText (Wrapped pre err) = pre @ '': '' @ errorText err"
| "errorText (WrappedOutput pre err out) =
     pre @ '': '' @ errorText err @ '' (output: '' @ out @ '')''"

definition runComposeCommand ::
  "GoLib \<Rightarrow> Docker \<Rightarrow> string \<Rightarrow> string list \<Rightarrow> ComposeResult \<times> error option \<times> Invocation" where
  "runComposeCommand lib docker composePath args =
     (let dir = Dir lib composePath;
          file = Base lib composePath;
          cmdArgs = [''compose'', ''-f'', file] @ args
      in case RunDocker docker dir cmdArgs of
        (stdout, stderr, err) \<Rightarrow>
          (let result = \<lparr>Success = (err = None),
                         Output = TrimSpace lib stdout,
                         ErrorText = TrimSpace lib stderr\<rparr>;
               call = \<lparr>inv_Dir = dir, inv_Args = cmdArgs\<rparr>
           in case err of
             Some e \<Rightarrow>
               ((if ErrorText result = [] then result\<lparr>ErrorText := errorText e\<rparr> else result),
                Some (Wrapped ''compose command failed'' e), call)
           | None \<Rightarrow> (result, None, call)))"

definition ComposeUp ::
  "GoLib \<Rightarrow> Docker \<Rightarrow> string \<Rightarrow> ComposeResult \<times> error option \<times> Invocation" where
  "ComposeUp lib docker composePath =
     runComposeCommand lib docker composePath [''up'', ''-d'', ''--remove-orphans'']"

definition ComposeDown ::
  "GoLib \<Rightarrow> Docker \<Rightarrow> string \<Rightarrow> ComposeResult \<times> error option \<times> Invocation" where
  "ComposeDown lib docker composePath = runComposeCommand lib docker composePath [''down'']"

definition ComposeRestart ::
  "GoLib \<Rightarrow> Docker \<Rightarrow> string \<Rightarrow> ComposeResult \<times> error option \<times> Invocation" where
  "ComposeRestart lib docker composePath = runComposeCommand lib docker composePath [''restart'']"

section \<open>Manager (manager.go)\<close>

text \<open>
  The manager's state: the project map, the preference store (nil when none is
  configured) and the protection policy.  The Docker client and the scanner are
  collaborators whose answers are arguments of the operations; \<open>now\<close> is the reading
  of the clock during the operation.  In the source the map, the scanner's cache and a
  scan result hold pointers, and a cache hit hands out the very \<open>Project\<close> the map
  holds.  The model holds projects by value: a scanned project is an input of a pass and
  may carry any flags, so whatever a shared object has accumulated is among the inputs.
\<close>

record Manager =
  projects :: "string \<rightharpoonup> Project"
  store :: "Store option"
  protection :: "ProtectionConfig option"

subsection \<open>Refresh\<close>

fun protectByContainers :: "GoLib \<Rightarrow> Project \<Rightarrow> Container list \<Rightarrow> Project" where
  "protectByContainers lib proj [] = proj"
| "protectByContainers lib proj (ctr # ctrs) =
     (case IsProtectedByPattern lib (ctr_Name ctr) of
        (True, reason) \<Rightarrow> proj\<lparr>Protected := True, ProtectionReason := reason\<rparr>
      | (False, _) \<Rightarrow>
     (case IsProtectedByPattern lib (ctr_Image ctr) of
        (True, reason) \<Rightarrow> proj\<lparr>Protected := True, ProtectionReason := reason\<rparr>
      | (False, _) \<Rightarrow> protectByContainers lib proj ctrs))"

definition applyProtection :: "GoLib \<Rightarrow> Manager \<Rightarrow> Project \<Rightarrow> Project" where
  "applyProtection lib m proj =
     (if Protected proj then proj
      else if protection m \<noteq> None \<and> IsProtected lib (protection m) (Path proj)
        then proj\<lparr>Protected := True, ProtectionReason := ProtectionUserMarked\<rparr>
      else protectByContainers lib proj (Containers proj))"

text \<open>Attaching the live containers of a project: shared by \<open>Refresh\<close> and \<open>refreshProject\<close>.\<close>

definition attachContainers ::
  "Docker \<Rightarrow> (string \<rightharpoonup> Container list) \<Rightarrow> Project \<Rightarrow> Project" where
  "attachContainers docker containersByProject proj =
     (let projectName = GetComposeProjectName docker (ComposeFilePath proj) in
      case containersByProject projectName of
        Some containers \<Rightarrow>
          proj\<lparr>Containers := containers, Status := determineProjectStatus containers\<rparr>
      | None \<Rightarrow> proj\<lparr>Status := StatusStopped, Containers := []\<rparr>)"

text \<open>
  One iteration of the loop of \<open>Refresh\<close> over \<open>result.Projects\<close>; \<open>m\<close> is the manager
  before the pass, whose map is read for the existing entry.
\<close>

definition refreshOne ::
  "GoLib \<Rightarrow> Docker \<Rightarrow> Time \<Rightarrow> Manager \<Rightarrow> (string \<rightharpoonup> ProjectPreference) option \<Rightarrow>
   (string \<rightharpoonup> Container list) \<Rightarrow> Project \<Rightarrow> Project" where
  "refreshOne lib docker now m prefs containersByProject proj =
     (let proj1 =
            (case projects m (ID proj) of
               Some existing \<Rightarrow>
                 proj\<lparr>Protected := Protected existing,
                      ProtectionReason := ProtectionReason existing\<rparr>
             | None \<Rightarrow> proj);
          proj2 =
            (case prefs of
               None \<Rightarrow> proj1
             | Some ps \<Rightarrow>
                 (case ps (ID proj1) of
                    Some pref \<Rightarrow>
                      proj1\<lparr>DisplayName := pref_DisplayName pref, Hidden := pref_Hidden pref\<rparr>
                  | None \<Rightarrow> proj1));
          proj3 = attachContainers docker containersByProject proj2;
          proj4 = applyProtection lib m proj3
      in proj4\<lparr>UpdatedAt := now\<rparr>)"

fun refreshLoop ::
  "GoLib \<Rightarrow> Docker \<Rightarrow> Time \<Rightarrow> Manager \<Rightarrow> (string \<rightharpoonup> ProjectPreference) option \<Rightarrow>
   (string \<rightharpoonup> Container list) \<Rightarrow> Project list \<Rightarrow> (string \<rightharpoonup> Project) \<Rightarrow>
   (string \<rightharpoonup> Project)" where
  "refreshLoop lib docker now m prefs containersByProject [] newProjects = newProjects"
| "refreshLoop lib docker now m prefs containersByProject (proj # rest) newProjects =
     (let proj' = refreshOne lib docker now m prefs containersByProject proj in
      refreshLoop lib docker now m prefs containersByProject rest
        (newProjects(ID proj' \<mapsto> proj')))"

text \<open>
  \<open>scan\<close> is what \<open>m.scanner.Scan\<close> returned: an error, or the scanned projects in
  order.  A failed pass returns before the map is touched.
\<close>

definition Refresh ::
  "GoLib \<Rightarrow> Docker \<Rightarrow> Time \<Rightarrow> (error + Project list) \<Rightarrow> Manager \<Rightarrow> error option \<times> Manager" where
  "Refresh lib docker now scan m =
     (case scan of
        Inl err \<Rightarrow> (Some (Wrapped ''scanning for projects'' err), m)
      | Inr scanned \<Rightarrow>
     (case GetContainersByComposeProject docker of
        Inl err \<Rightarrow> (Some (Wrapped ''getting containers'' err), m)
      | Inr containersByProject \<Rightarrow>
          (let prefs = (case store m of None \<Rightarrow> None | Some st \<Rightarrow> fst (GetAllPreferences st)) in
           (None,
            m\<lparr>projects :=
                refreshLoop lib docker now m prefs containersByProject scanned Map.empty\<rparr>))))"

definition refreshProject :: "Docker \<Rightarrow> Time \<Rightarrow> Manager \<Rightarrow> string \<Rightarrow> error option \<times> Manager" where
  "refreshProject docker now m pid =
     (case GetContainersByComposeProject docker of
        Inl err \<Rightarrow> (Some err, m)
      | Inr containersByProject \<Rightarrow>
     (case projects m pid of
        None \<Rightarrow> (None, m)
      | Some proj \<Rightarrow>
          (let proj' = attachContainers docker containersByProject proj in
           (None, m\<lparr>projects := (projects m)(pid \<mapsto> proj'\<lparr>UpdatedAt := now\<rparr>)\<rparr>))))"

subsection \<open>Listing\<close>

definition swapNeeded :: "Project \<Rightarrow> Project \<Rightarrow> bool" where
  "swapNeeded a b =
     (if Name a > Name b then True
      else if Name a = Name b then (if ComposeFile a > ComposeFile b then True else False)
      else False)"

text \<open>
  The two nested loops of \<open>ListProjects\<close> over the slice, by index.  \<open>n\<close> is
  \<open>len(projects)\<close>, which the loops do not change.
\<close>

function sortInner :: "nat \<Rightarrow> nat \<Rightarrow> nat \<Rightarrow> Project list \<Rightarrow> Project list" where
  "sortInner n i j ps =
     (if j < n then
        sortInner n i (j + 1)
          (if swapNeeded (ps ! i) (ps ! j) then ps[i := ps ! j, j := ps ! i] else ps)
      else ps)"
  by pat_completeness auto
termination
  by (relation "measure (\<lambda>(n, i, j, ps). n - j)") auto

function sortOuter :: "nat \<Rightarrow> nat \<Rightarrow> Project list \<Rightarrow> Project list" where
  "sortOuter n i ps =
     (if i < n then sortOuter n (i + 1) (sortInner n i (i + 1) ps) else ps)"
  by pat_completeness auto
termination
  by (relation "measure (\<lambda>(n, i, ps). n - i)") auto

text \<open>
  Go ranges over a map in an unspecified order: \<open>order\<close> is the order in which the keys
  come, any enumeration of the map's keys.
\<close>

definition ListProjects :: "Manager \<Rightarrow> string list \<Rightarrow> Project list" where
  "ListProjects m order =
     (let ps = List.map_filter (projects m) order in sortOuter (length ps) 0 ps)"

subsection \<open>Lifecycle operations\<close>

definition GetProject :: "Manager \<Rightarrow> string \<Rightarrow> error + Project" where
  "GetProject m pid =
     (case projects m pid of
        None \<Rightarrow> Inl (ProjectNotFound pid)
      | Some proj \<Rightarrow> Inr proj)"

text \<open>
  A lifecycle operation returns its error (or nil), the manager afterwards and the
  compose invocations it issued.
\<close>

definition StartProject ::
  "GoLib \<Rightarrow> Docker \<Rightarrow> Time \<Rightarrow> Manager \<Rightarrow> string \<Rightarrow> error option \<times> Manager \<times> Invocation list" where
  "StartProject lib docker now m pid =
     (case GetProject m pid of
        Inl err \<Rightarrow> (Some err, m, [])
      | Inr proj \<Rightarrow>
     (case ComposeUp lib docker (ComposeFilePath proj) of
        (result, Some err, call) \<Rightarrow>
          (Some (WrappedOutput (''starting project '' @ Name proj) err (ErrorText result)), m, [call])
      | (result, None, call) \<Rightarrow>
          (case refreshProject docker now m pid of (e, m') \<Rightarrow> (e, m', [call]))))"

definition StopProject ::
  "GoLib \<Rightarrow> Docker \<Rightarrow> Time \<Rightarrow> Manager \<Rightarrow> string \<Rightarrow> bool \<Rightarrow>
   error option \<times> Manager \<times> Invocation list" where
  "StopProject lib docker now m pid force =
     (case GetProject m pid of
        Inl err \<Rightarrow> (Some err, m, [])
      | Inr proj \<Rightarrow>
          if Protected proj \<and> \<not> force
          then (Some (ProtectedStop (Name proj) (ProtectionReason proj)), m, [])
          else
     (case ComposeDown lib docker (ComposeFilePath proj) of
        (result, Some err, call) \<Rightarrow>
          (Some (WrappedOutput (''stopping project '' @ Name proj) err (ErrorText result)), m, [call])
      | (result, None, call) \<Rightarrow>
          (case refreshProject docker now m pid of (e, m') \<Rightarrow> (e, m', [call]))))"

definition RestartProject ::
  "GoLib \<Rightarrow> Docker \<Rightarrow> Time \<Rightarrow> Manager \<Rightarrow> string \<Rightarrow> error option \<times> Manager \<times> Invocation list" where
  "RestartProject lib docker now m pid =
     (case GetProject m pid of
        Inl err \<Rightarrow> (Some err, m, [])
      | Inr proj \<Rightarrow>
          if Protected proj
          then (Some (ProtectedRestart (Name proj) (ProtectionReason proj)), m, [])
          else
     (case ComposeRestart lib docker (ComposeFilePath proj) of
        (result, Some err, call) \<Rightarrow>
          (Some (WrappedOutput (''restarting project '' @ Name proj) err (ErrorText result)), m, [call])
      | (result, None, call) \<Rightarrow>
          (case refreshProject docker now m pid of (e, m') \<Rightarrow> (e, m', [call]))))"

subsection \<open>Protection and preferences\<close>

definition SetProjectProtection ::
  "Time \<Rightarrow> Manager \<Rightarrow> string \<Rightarrow> bool \<Rightarrow> ProtectionReason \<Rightarrow> error option \<times> Manager" where
  "SetProjectProtection now m pid protected reason =
     (case projects m pid of
        None \<Rightarrow> (Some (ProjectNotFound pid), m)
      | Some proj \<Rightarrow>
          (None, m\<lparr>projects := (projects m)(pid \<mapsto>
             proj\<lparr>Protected := protected,
                  ProtectionReason := (if protected then reason else []),
                  UpdatedAt := now\<rparr>)\<rparr>))"

definition SetProjectDisplayName ::
  "Time \<Rightarrow> Manager \<Rightarrow> string \<Rightarrow> string \<Rightarrow> error option \<times> Manager" where
  "SetProjectDisplayName now m pid displayName =
     (case projects m pid of
        None \<Rightarrow> (Some (ProjectNotFound pid), m)
      | Some proj \<Rightarrow>
     (case store m of
        None \<Rightarrow>
          (None, m\<lparr>projects := (projects m)(pid \<mapsto>
             proj\<lparr>DisplayName := displayName, UpdatedAt := now\<rparr>)\<rparr>)
      | Some st \<Rightarrow>
     (case SetDisplayName st pid displayName of
        Inl err \<Rightarrow> (Some (Wrapped ''saving display name'' err), m)
      | Inr st' \<Rightarrow>
          (None, m\<lparr>store := Some st',
                    projects := (projects m)(pid \<mapsto>
                      proj\<lparr>DisplayName := displayName, UpdatedAt := now\<rparr>)\<rparr>))))"

definition SetProjectHidden ::
  "Time \<Rightarrow> Manager \<Rightarrow> string \<Rightarrow> bool \<Rightarrow> error option \<times> Manager" where
  "SetProjectHidden now m pid hid =
     (case projects m pid of
        None \<Rightarrow> (Some (ProjectNotFound pid), m)
      | Some proj \<Rightarrow>
     (case store m of
        None \<Rightarrow>
          (None, m\<lparr>projects := (projects m)(pid \<mapsto> proj\<lparr>Hidden := hid, UpdatedAt := now\<rparr>)\<rparr>)
      | Some st \<Rightarrow>
     (case SetHidden st pid hid of
        Inl err \<Rightarrow> (Some (Wrapped ''saving hidden status'' err), m)
      | Inr st' \<Rightarrow>
          (None, m\<lparr>store := Some st',
                    projects := (projects m)(pid \<mapsto>
                      proj\<lparr>Hidden := hid, UpdatedAt := now\<rparr>)\<rparr>))))"

section \<open>CPU percentage (stats.go)\<close>

text \<open>
  The counters of a raw sample that \<open>calculateCPUPercent\<close> reads
  (\<open>CPUStats.CPUUsage.TotalUsage\<close>, \<open>CPUStats.CPUUsage.PercpuUsage\<close>,
  \<open>CPUStats.SystemUsage\<close>, \<open>CPUStats.OnlineCPUs\<close>), with their machine types: the
  subtraction of two \<open>uint64\<close> counters wraps around.  With \<open>float64\<close> idealised as the
  real numbers, the conversion of an integer is taken as exact and the arithmetic as
  unrounded.  Whether a converted counter difference is zero or positive is not affected
  by this.
\<close>

record StatsResponse =
  TotalUsage :: "64 word"
  PercpuUsage :: "64 word list"
  SystemUsage :: "64 word"
  OnlineCPUs :: "32 word"

definition float64 :: "'a::len word \<Rightarrow> float64" where
  "float64 w = real (unat w)"

text \<open>A nil pointer is \<open>None\<close>.\<close>

definition calculateCPUPercent :: "StatsResponse option \<Rightarrow> StatsResponse option \<Rightarrow> float64" where
  "calculateCPUPercent prev cur =
     (case prev of
        None \<Rightarrow> 0
      | Some p \<Rightarrow>
     (case cur of
        None \<Rightarrow> 0
      | Some c \<Rightarrow>
          (let cpuDelta = float64 (TotalUsage c - TotalUsage p);
               systemDelta = float64 (SystemUsage c - SystemUsage p)
           in if systemDelta > 0 \<and> cpuDelta > 0 then
                (let cpuCount0 = float64 (OnlineCPUs c);
                     cpuCount1 = (if cpuCount0 = 0 then real (length (PercpuUsage c)) else cpuCount0);
                     cpuCount = (if cpuCount1 = 0 then 1 else cpuCount1)
                 in (cpuDelta / systemDelta) * cpuCount * 100)
              else 0)))"

section \<open>Realtime hub (client.go, hub.go, protocol.go)\<close>

record Message =
  msg_Type :: string
  msg_ProjectID :: string
  msg_Payload :: string
  msg_Timestamp :: int

text \<open>
  A client: \<open>conn\<close> stands for the identity of the client (the hub's map is keyed by
  pointer), \<open>send\<close> is the contents of its buffered channel, oldest first, and
  \<open>subscriptions\<close> is its \<open>map[string]bool\<close> as an association list.
\<close>

record Client =
  conn :: nat
  send :: "string list"
  subscriptions :: "(string \<times> bool) list"

definition sendCapacity :: nat where
  "sendCapacity = 256"

definition broadcastCapacity :: nat where
  "broadcastCapacity = 256"

definition NewClient :: "nat \<Rightarrow> Client" where
  "NewClient c = \<lparr>conn = c, send = [], subscriptions = []\<rparr>"

definition Subscribe :: "string \<Rightarrow> Client \<Rightarrow> Client" where
  "Subscribe projectID c = c\<lparr>subscriptions := AList.update projectID True (subscriptions c)\<rparr>"

definition Unsubscribe :: "string \<Rightarrow> Client \<Rightarrow> Client" where
  "Unsubscribe projectID c = c\<lparr>subscriptions := AList.delete projectID (subscriptions c)\<rparr>"

text \<open>Reading a key that a Go map does not hold yields the zero value, \<open>false\<close>.\<close>

definition IsSubscribed :: "Client \<Rightarrow> string \<Rightarrow> bool" where
  "IsSubscribed c projectID =
     (if length (subscriptions c) = 0 then True
      else case map_of (subscriptions c) projectID of
        None \<Rightarrow> False
      | Some b \<Rightarrow> b)"

text \<open>
  The hub: the clients of its membership map, in the order a range over the map yields
  them, and the contents of the buffered \<open>broadcast\<close> channel.  A client that the hub
  deletes from the map has its \<open>send\<close> channel closed and leaves the list.
  \<open>json.Marshal\<close> is an argument (\<open>None\<close> when it fails).
\<close>

record Hub =
  clients :: "Client list"
  broadcast :: "string list"

definition NewHub :: Hub where
  "NewHub = \<lparr>clients = [], broadcast = []\<rparr>"

text \<open>
  The non-blocking send \<open>select { case client.send <- data: default: }\<close>: the message
  is queued when the channel has room and dropped otherwise.
\<close>

definition trySend :: "string \<Rightarrow> Client \<Rightarrow> Client" where
  "trySend data client =
     (if length (send client) < sendCapacity then client\<lparr>send := send client @ [data]\<rparr>
      else client)"

definition Broadcast :: "(Message \<Rightarrow> string option) \<Rightarrow> Message \<Rightarrow> Hub \<Rightarrow> Hub" where
  "Broadcast marshal msg h =
     (case marshal msg of
        None \<Rightarrow> h
      | Some data \<Rightarrow>
          if length (broadcast h) < broadcastCapacity then h\<lparr>broadcast := broadcast h @ [data]\<rparr>
          else h)"

definition BroadcastToSubscribers ::
  "(Message \<Rightarrow> string option) \<Rightarrow> string \<Rightarrow> Message \<Rightarrow> Hub \<Rightarrow> Hub" where
  "BroadcastToSubscribers marshal projectID msg h =
     (case marshal msg of
        None \<Rightarrow> h
      | Some data \<Rightarrow>
          h\<lparr>clients :=
              map (\<lambda>client. if IsSubscribed client projectID then trySend data client else client)
                (clients h)\<rparr>)"

definition ClientCount :: "Hub \<Rightarrow> nat" where
  "ClientCount h = length (clients h)"

text \<open>
  One turn of the event loop \<open>Run\<close>, by the case of the \<open>select\<close> that fires: the
  context is done, a client arrives on \<open>register\<close> or on \<open>unregister\<close>, or the oldest
  message of \<open>broadcast\<close> is taken.  In the last case a client whose channel is full is
  closed and deleted; no subscription is consulted.
\<close>

datatype RunCase = CtxDone | RecvRegister Client | RecvUnregister Client | RecvBroadcast

fun Run :: "RunCase \<Rightarrow> Hub \<Rightarrow> Hub" where
  "Run CtxDone h = h\<lparr>clients := []\<rparr>"
| "Run (RecvRegister client) h =
     (if list_ex (\<lambda>c. conn c = conn client) (clients h) then h
      else h\<lparr>clients := clients h @ [client]\<rparr>)"
| "Run (RecvUnregister client) h =
     h\<lparr>clients := filter (\<lambda>c. conn c \<noteq> conn client) (clients h)\<rparr>"
| "Run RecvBroadcast h =
     (case broadcast h of
        [] \<Rightarrow> h
      | message # rest \<Rightarrow>
          h\<lparr>broadcast := rest,
            clients :=
              map (\<lambda>client. client\<lparr>send := send client @ [message]\<rparr>)
                (filter (\<lambda>client. length (send client) < sendCapacity) (clients h))\<rparr>)"

section \<open>Vocabulary of the properties and sample values\<close>

text \<open>The coarse states the status function tells apart.\<close>

definition runningState :: "Container \<Rightarrow> bool" where
  "runningState ctr = (ctr_State ctr = ''running'')"

definition terminalState :: "Container \<Rightarrow> bool" where
  "terminalState ctr =
     (ctr_State ctr = ''exited'' \<or> ctr_State ctr = ''dead'' \<or> ctr_State ctr = ''created'')"

text \<open>A container with a given name, image and coarse state, for concrete inputs.\<close>

definition container :: "string \<Rightarrow> string \<Rightarrow> string \<Rightarrow> Container" where
  "container name img state =
     \<lparr>ctr_ID = name, ctr_Name = name, ctr_ServiceName = name, ctr_Image = img,
      ctr_Status = [], ctr_State = state, ctr_Health = [], ctr_Ports = [],
      ctr_Labels = [], ctr_Stats = None, ctr_CreatedAt = 0, ctr_StartedAt = 0\<rparr>"

text \<open>A stand-in for \<open>json.Marshal\<close>, a status message scoped to a project, a client
  whose send channel is full, and a hub of three clients with one message waiting on its
  broadcast channel.\<close>

definition sampleMarshal :: "Message \<Rightarrow> string option" where
  "sampleMarshal msg = Some (msg_Type msg @ '':'' @ msg_ProjectID msg @ '':'' @ msg_Payload msg)"

definition statusMessage :: "string \<Rightarrow> Message" where
  "statusMessage projectID =
     \<lparr>msg_Type = ''project_status'', msg_ProjectID = projectID, msg_Payload = [],
      msg_Timestamp = 0\<rparr>"

definition fullClient :: Client where
  "fullClient = \<lparr>conn = 2, send = replicate 256 ''m'', subscriptions = []\<rparr>"

definition threeClients :: Hub where
  "threeClients =
     \<lparr>clients = [NewClient 1, fold Subscribe [''X'', ''Z''] (NewClient 3), fullClient],
      broadcast = [''queued'']\<rparr>"

text \<open>
  A scanned project (unprotected, as the scanner builds it), a Docker side with no
  containers on which every command succeeds, and a manager that holds project \<open>p1\<close>,
  protected by the user, with a preference store whose database fails or not.
\<close>

definition project :: "string \<Rightarrow> string \<Rightarrow> string \<Rightarrow> Project" where
  "project pid name file =
     \<lparr>ID = pid, Name = name, DisplayName = [], Path = ''/srv/'' @ name,
      ComposeFile = file, ComposeFilePath = ''/srv/'' @ name @ ''/'' @ file,
      Environment = EnvDevelopment, Status = StatusUnknown, Protected = False,
      ProtectionReason = [], Hidden = False, Containers = [], Services = [''web''],
      CreatedAt = 0, UpdatedAt = 0\<rparr>"

definition idleDocker :: Docker where
  "idleDocker =
     \<lparr>GetContainersByComposeProject = Inr Map.empty,
      GetComposeProjectName = (\<lambda>composePath. Base asciiLib (Dir asciiLib composePath)),
      RunDocker = (\<lambda>dir args. ([], [], None))\<rparr>"

definition sampleManager :: "bool \<Rightarrow> Manager" where
  "sampleManager dbFails =
     \<lparr>projects = [''p1'' \<mapsto> (project ''p1'' ''blog'' ''compose.yml'')
        \<lparr>Protected := True, ProtectionReason := ProtectionUserMarked\<rparr>],
      store = Some \<lparr>rows = Map.empty, failing = dbFails\<rparr>,
      protection = None\<rparr>"

text \<open>
  \<open>finds pid scan\<close>: the scan of a refresh pass succeeded and its result holds a project
  with identifier \<open>pid\<close>.  The operations of the manager that change its state, each
  with what its collaborators answer, and the manager after one of them.
  \<open>implicitFor pid op\<close>: the operation is not the explicit \<open>SetProjectProtection\<close> for
  \<open>pid\<close> and, if it is a refresh pass, its scan finds \<open>pid\<close>.
  \<open>protectedWith m pid reason\<close>: the map holds \<open>pid\<close>, protected, with this reason.
\<close>

definition finds :: "string \<Rightarrow> (error + Project list) \<Rightarrow> bool" where
  "finds pid scan =
     (case scan of Inl err \<Rightarrow> False | Inr scanned \<Rightarrow> list_ex (\<lambda>p. ID p = pid) scanned)"

datatype ManagerOp =
    RefreshOp Docker Time "error + Project list"
  | StartOp Docker Time string
  | StopOp Docker Time string bool
  | RestartOp Docker Time string
  | SetDisplayNameOp Time string string
  | SetHiddenOp Time string bool
  | SetProtectionOp Time string bool ProtectionReason

fun applyOp :: "GoLib \<Rightarrow> ManagerOp \<Rightarrow> Manager \<Rightarrow> Manager" where
  "applyOp lib (RefreshOp docker now scan) m = snd (Refresh lib docker now scan m)"
| "applyOp lib (StartOp docker now pid) m = fst (snd (StartProject lib docker now m pid))"
| "applyOp lib (StopOp docker now pid force) m = fst (snd (StopProject lib docker now m pid force))"
| "applyOp lib (RestartOp docker now pid) m = fst (snd (RestartProject lib docker now m pid))"
| "applyOp lib (SetDisplayNameOp now pid displayName) m =
     snd (SetProjectDisplayName now m pid displayName)"
| "applyOp lib (SetHiddenOp now pid hid) m = snd (SetProjectHidden now m pid hid)"
| "applyOp lib (SetProtectionOp now pid protected reason) m =
     snd (SetProjectProtection now m pid protected reason)"

fun implicitFor :: "string \<Rightarrow> ManagerOp \<Rightarrow> bool" where
  "implicitFor pid (RefreshOp docker now scan) = finds pid scan"
| "implicitFor pid (SetProtectionOp now pid' protected reason) = (pid' \<noteq> pid)"
| "implicitFor pid (StartOp docker now pid') = True"
| "implicitFor pid (StopOp docker now pid' force) = True"
| "implicitFor pid (RestartOp docker now pid') = True"
| "implicitFor pid (SetDisplayNameOp now pid' displayName) = True"
| "implicitFor pid (SetHiddenOp now pid' hid) = True"

definition protectedWith :: "Manager \<Rightarrow> string \<Rightarrow> ProtectionReason \<Rightarrow> bool" where
  "protectedWith m pid reason =
     (case projects m pid of
        None \<Rightarrow> False
      | Some proj \<Rightarrow> Protected proj \<and> ProtectionReason proj = reason)"

text \<open>
  The order of the listing: by name, ties broken by the name of the compose file.
  \<open>sortInv i ps\<close> is the invariant of the outer loop of \<open>ListProjects\<close> at index \<open>i\<close>:
  the first \<open>i\<close> entries are in order and none of them is above a later entry.
\<close>

definition projectLe :: "Project \<Rightarrow> Project \<Rightarrow> bool" where
  "projectLe a b = (Name a < Name b \<or> (Name a = Name b \<and> ComposeFile a \<le> ComposeFile b))"

definition sortInv :: "nat \<Rightarrow> Project list \<Rightarrow> bool" where
  "sortInv i ps =
     (sorted_wrt projectLe (take i ps) \<and>
      (\<forall>a\<in>set (take i ps). \<forall>b\<in>set (drop i ps). projectLe a b))"

definition threeProjects :: Manager where
  "threeProjects =
     \<lparr>projects = [''p1'' \<mapsto> project ''p1'' ''shop'' ''compose.yml'',
                  ''p2'' \<mapsto> project ''p2'' ''blog'' ''docker-compose.yml'',
                  ''p3'' \<mapsto> project ''p3'' ''blog'' ''compose.dev.yml''],
      store = None, protection = None\<rparr>"

text \<open>
  For the project names: the characters of a slug \<open>[a-z0-9_-]\<close>; the runes the loop of
  \<open>sanitizeProjectName\<close> ranges over (the name in lower case, dots replaced); a rune that
  is a lower-case letter or a digit; the byte the loop writes for a rune after the first;
  the two separators that \<open>strings.Trim\<close> cuts, and the cut at the right end.
\<close>

definition slugChar :: "char \<Rightarrow> bool" where
  "slugChar c =
     ((CHR ''a'' \<le> c \<and> c \<le> CHR ''z'') \<or> (CHR ''0'' \<le> c \<and> c \<le> CHR ''9'')
      \<or> c = CHR ''-'' \<or> c = CHR ''_'')"

definition nameRunes :: "GoLib \<Rightarrow> string \<Rightarrow> rune list" where
  "nameRunes lib name = RangeRunes lib (ReplaceAll (ToLower lib name) CHR ''.'' CHR ''-'')"

definition alnumRune :: "rune \<Rightarrow> bool" where
  "alnumRune r = (isLower r \<or> isDigit r)"

definition sanitizeRune :: "rune \<Rightarrow> char" where
  "sanitizeRune r =
     (if isLower r \<or> isDigit r \<or> r = runeOf CHR ''-'' \<or> r = runeOf CHR ''_''
      then char_of r else CHR ''-'')"

definition separator :: "char \<Rightarrow> bool" where
  "separator c = (c \<in> set ''-_'')"

definition trimRight :: "string \<Rightarrow> string" where
  "trimRight s = rev (dropWhile separator (rev s))"

text \<open>
  For the scan cache: a host on which every file has the given modification time and
  contents and loads with the given services, and a scanner whose cache holds an entry
  for \<open>/srv/blog/compose.yml\<close>, parsed when the file had modification time 1.
\<close>

definition sampleHost :: "Time \<Rightarrow> string \<Rightarrow> string list \<Rightarrow> Host" where
  "sampleHost modTime contents services =
     \<lparr>Stat = (\<lambda>path. Inr modTime),
      ReadFile = (\<lambda>path. Inr contents),
      NewProjectOptions = (\<lambda>path name. None),
      LoadProject = (\<lambda>path name. Inr services),
      Now = 100\<rparr>"

definition cachedScanner :: Scanner where
  "cachedScanner =
     \<lparr>cache = [''/srv/blog/compose.yml'' \<mapsto>
        \<lparr>cp_Project = project ''p1'' ''blog'' ''compose.yml'',
         cp_ModTime = 1,
         cp_CheckSum = Sha256Hex asciiLib ''services: {web: {}}''\<rparr>],
      loaded = []\<rparr>"

text \<open>A raw sample with the given CPU-time counter, system-time counter and CPU count.\<close>

definition statsSample :: "nat \<Rightarrow> nat \<Rightarrow> nat \<Rightarrow> StatsResponse" where
  "statsSample cpuTotal sys cpus =
     \<lparr>TotalUsage = of_nat cpuTotal, PercpuUsage = [], SystemUsage = of_nat sys,
      OnlineCPUs = of_nat cpus\<rparr>"

section \<open>The aggregate status of a project\<close>

lemma countStates_counts:
  "countStates ctrs (r, s) =
     (r + length (filter runningState ctrs), s + length (filter terminalState ctrs))"
  by (induction ctrs arbitrary: r s) (auto simp: runningState_def terminalState_def)

lemma length_filter_all: "(length (filter P xs) = length xs) = (\<forall>x\<in>set xs. P x)"
proof (induction xs)
  case Nil
  show ?case by simp
next
  case (Cons a xs)
  have le: "length (filter P xs) \<le> length xs" by (rule length_filter_le)
  show ?case
  proof (cases "P a")
    case True
    with Cons show ?thesis by simp
  next
    case False
    with le show ?thesis by (auto simp del: length_filter_le)
  qed
qed

lemma running_not_terminal: "runningState c \<Longrightarrow> \<not> terminalState c"
  by (simp add: runningState_def terminalState_def)

lemma determineProjectStatus_eq:
  "determineProjectStatus ctrs =
     (if ctrs = [] then StatusStopped
      else if \<forall>c\<in>set ctrs. runningState c then StatusRunning
      else if \<forall>c\<in>set ctrs. terminalState c then StatusStopped
      else StatusPartial)"
  by (simp add: determineProjectStatus_def countStates_counts length_filter_all)

text \<open>
  C3.  The status of a project over the coarse states of its containers: no containers
  give stopped; a non-empty list of running containers gives running; a non-empty list
  of containers that are all exited, dead or created gives stopped; every other non-empty
  list gives partial, in particular every list with at least one running and at least one
  terminal container.
\<close>

theorem determineProjectStatus_cases:
  "determineProjectStatus [] = StatusStopped \<and>
   (ctrs \<noteq> [] \<and> (\<forall>c\<in>set ctrs. runningState c) \<longrightarrow> determineProjectStatus ctrs = StatusRunning) \<and>
   (ctrs \<noteq> [] \<and> (\<forall>c\<in>set ctrs. terminalState c) \<longrightarrow> determineProjectStatus ctrs = StatusStopped) \<and>
   (ctrs \<noteq> [] \<and> \<not> (\<forall>c\<in>set ctrs. runningState c) \<and> \<not> (\<forall>c\<in>set ctrs. terminalState c)
      \<longrightarrow> determineProjectStatus ctrs = StatusPartial) \<and>
   ((\<exists>c\<in>set ctrs. runningState c) \<and> (\<exists>c\<in>set ctrs. terminalState c)
      \<longrightarrow> determineProjectStatus ctrs = StatusPartial)"
proof -
  have mixed: "determineProjectStatus ctrs = StatusPartial"
    if "\<exists>c\<in>set ctrs. runningState c" and "\<exists>c\<in>set ctrs. terminalState c"
  proof -
    from that obtain r t
      where r: "r \<in> set ctrs" "runningState r" and t: "t \<in> set ctrs" "terminalState t"
      by blast
    have "\<not> (\<forall>c\<in>set ctrs. runningState c)" using t running_not_terminal by blast
    moreover have "\<not> (\<forall>c\<in>set ctrs. terminalState c)" using r running_not_terminal by blast
    moreover have "ctrs \<noteq> []" using r by auto
    ultimately show ?thesis by (simp add: determineProjectStatus_eq)
  qed
  have "\<not> (\<forall>c\<in>set ctrs. runningState c)"
    if "ctrs \<noteq> []" and "\<forall>c\<in>set ctrs. terminalState c"
  proof -
    from that obtain t where "t \<in> set ctrs" "terminalState t" by (cases ctrs) auto
    then show ?thesis using running_not_terminal by blast
  qed
  with mixed show ?thesis by (auto simp: determineProjectStatus_eq)
qed

theorem determineProjectStatus_cases_witness:
  "determineProjectStatus [container ''a'' ''img'' ''running'', container ''b'' ''img'' ''running'']
     = StatusRunning \<and>
   determineProjectStatus [container ''a'' ''img'' ''exited'', container ''b'' ''img'' ''created'']
     = StatusStopped \<and>
   determineProjectStatus [container ''a'' ''img'' ''running'', container ''b'' ''img'' ''paused'']
     = StatusPartial \<and>
   determineProjectStatus [container ''a'' ''img'' ''running'', container ''b'' ''img'' ''dead'']
     = StatusPartial"
  using
    determineProjectStatus_cases
      [of "[container ''a'' ''img'' ''running'', container ''b'' ''img'' ''running'']"]
    determineProjectStatus_cases
      [of "[container ''a'' ''img'' ''exited'', container ''b'' ''img'' ''created'']"]
    determineProjectStatus_cases
      [of "[container ''a'' ''img'' ''running'', container ''b'' ''img'' ''paused'']"]
    determineProjectStatus_cases
      [of "[container ''a'' ''img'' ''running'', container ''b'' ''img'' ''dead'']"]
  by (simp add: container_def runningState_def terminalState_def)

section \<open>Subscriptions and broadcasts\<close>

lemma subscriptions_fold_Subscribe:
  "subscriptions (fold Subscribe ids c) = fold (\<lambda>k. AList.update k True) ids (subscriptions c)"
  by (induction ids arbitrary: c) (simp_all add: Subscribe_def)

lemma subscriptions_fold_Unsubscribe:
  "subscriptions (fold Unsubscribe ids c) = fold AList.delete ids (subscriptions c)"
  by (induction ids arbitrary: c) (simp_all add: Unsubscribe_def)

lemma keys_fold_update:
  "fst ` set (fold (\<lambda>k. AList.update k True) ids al) = fst ` set al \<union> set ids"
  by (induction ids arbitrary: al) (auto simp: dom_update)

lemma keys_delete: "fst ` set (AList.delete k al) = fst ` set al - {k}"
proof -
  have "set (map fst (AList.delete k al)) = set (map fst al) - {k}"
    by (simp add: delete_keys)
  then show ?thesis by simp
qed

lemma keys_fold_delete:
  "fst ` set (fold AList.delete ids al) = fst ` set al - set ids"
  by (induction ids arbitrary: al) (auto simp: keys_delete)

lemma IsSubscribed_empty: "subscriptions c = [] \<Longrightarrow> IsSubscribed c projectID"
  by (simp add: IsSubscribed_def)

text \<open>
  C10.  The empty subscription map is a reversible sentinel: when a client subscribes to
  project identifiers \<open>ids\<close> and then unsubscribes from identifiers \<open>unsubs\<close> that cover
  \<open>ids\<close> and whatever it was subscribed to before, its map is empty again and
  \<open>IsSubscribed\<close> is true for every project identifier.
\<close>

theorem unsubscribe_all_reverts:
  assumes "set ids \<subseteq> set unsubs" and "fst ` set (subscriptions c) \<subseteq> set unsubs"
  shows "subscriptions (fold Unsubscribe unsubs (fold Subscribe ids c)) = [] \<and>
         IsSubscribed (fold Unsubscribe unsubs (fold Subscribe ids c)) projectID"
proof -
  let ?c = "fold Unsubscribe unsubs (fold Subscribe ids c)"
  have "fst ` set (subscriptions ?c) = (fst ` set (subscriptions c) \<union> set ids) - set unsubs"
    by (simp add: subscriptions_fold_Unsubscribe subscriptions_fold_Subscribe
        keys_fold_delete keys_fold_update)
  moreover have "fst ` set (subscriptions c) \<union> set ids \<subseteq> set unsubs"
    using assms by simp
  ultimately have "fst ` set (subscriptions ?c) = {}"
    by (simp only: Diff_eq_empty_iff)
  then have "subscriptions ?c = []" by simp
  then show ?thesis by (simp add: IsSubscribed_empty)
qed

text \<open>
  At a concrete client: subscribed to X and Z it is not subscribed to Y; after
  unsubscribing from both it is subscribed to Y again.
\<close>

theorem unsubscribe_all_reverts_witness:
  "\<not> IsSubscribed (fold Subscribe [''X'', ''Z''] (NewClient 1)) ''Y'' \<and>
   IsSubscribed (fold Unsubscribe [''Z'', ''X''] (fold Subscribe [''X'', ''Z''] (NewClient 1))) ''Y'' \<and>
   subscriptions (fold Unsubscribe [''Z'', ''X''] (fold Subscribe [''X'', ''Z''] (NewClient 1))) = []"
  using unsubscribe_all_reverts [of "[''X'', ''Z'']" "[''Z'', ''X'']" "NewClient 1" "''Y''"]
  by (simp add: NewClient_def Subscribe_def IsSubscribed_def)

lemma map_of_fold_update:
  "map_of (fold (\<lambda>k. AList.update k True) ids al) p =
     (if p \<in> set ids then Some True else map_of al p)"
  by (induction ids arbitrary: al) (simp_all add: update_conv')

lemma subscriptions_empty_iff:
  "(subscriptions (fold Subscribe ids (NewClient n)) = []) = (ids = [])"
proof -
  have "fst ` set (subscriptions (fold Subscribe ids (NewClient n))) = set ids"
    by (simp add: subscriptions_fold_Subscribe keys_fold_update NewClient_def)
  then show ?thesis by (metis image_is_empty set_empty)
qed

lemma subscribed_key_iff:
  "(map_of (subscriptions (fold Subscribe ids (NewClient n))) p = Some True) = (p \<in> set ids)"
  by (simp add: subscriptions_fold_Subscribe map_of_fold_update NewClient_def)

lemma single_key_no_match:
  assumes "map fst al = [x]" and "p \<noteq> x"
  shows "al \<noteq> [] \<and> map_of al p \<noteq> Some True"
proof -
  from assms(1) obtain b where "al = [(x, b)]" by (cases al) auto
  with assms(2) show ?thesis by simp
qed

text \<open>
  C9, as the code has it.  Let \<open>c\<close> be the \<open>i\<close>-th client of the hub and let
  \<open>json.Marshal\<close> succeed with \<open>data\<close>.
  \<^item> \<open>BroadcastToSubscribers\<close> for project \<open>projectID\<close> keeps the membership and the
    broadcast channel, and queues \<open>data\<close> for \<open>c\<close> exactly when the subscription map of
    \<open>c\<close> is empty or holds \<open>projectID\<close> with the value true, and the send channel of \<open>c\<close>
    has room; in every other case \<open>c\<close> is as it was.  So a client with an empty map is
    sent a broadcast scoped to any project, and a client with a non-empty map only the
    broadcasts that match a subscribed identifier.
  \<^item> When the map of \<open>c\<close> holds the one key \<open>x\<close>, a \<open>BroadcastToSubscribers\<close> scoped to
    another project leaves \<open>c\<close> as it was.
  \<^item> The map of a new client that has subscribed to the identifiers \<open>ids\<close> is empty
    exactly when \<open>ids\<close> is, and holds an identifier with the value true exactly when it
    is one of \<open>ids\<close>.
  \<^item> \<open>Broadcast\<close> puts \<open>data\<close> on the broadcast channel when that has room, and the
    event loop queues the message it takes from the channel for every client whose send
    channel has room, whatever its subscriptions.
\<close>

theorem subscription_filtering:
  assumes "marshal msg = Some data" and "i < length (clients h)"
  shows
    "length (clients (BroadcastToSubscribers marshal projectID msg h)) = length (clients h) \<and>
     broadcast (BroadcastToSubscribers marshal projectID msg h) = broadcast h \<and>
     clients (BroadcastToSubscribers marshal projectID msg h) ! i =
       (if (subscriptions (clients h ! i) = [] \<or>
            map_of (subscriptions (clients h ! i)) projectID = Some True) \<and>
           length (send (clients h ! i)) < sendCapacity
        then (clients h ! i)\<lparr>send := send (clients h ! i) @ [data]\<rparr>
        else clients h ! i) \<and>
     (map fst (subscriptions (clients h ! i)) = [x] \<and> projectID \<noteq> x \<longrightarrow>
        clients (BroadcastToSubscribers marshal projectID msg h) ! i = clients h ! i) \<and>
     (subscriptions (fold Subscribe ids (NewClient n)) = []) = (ids = []) \<and>
     (map_of (subscriptions (fold Subscribe ids (NewClient n))) projectID = Some True)
        = (projectID \<in> set ids) \<and>
     (length (broadcast h) < broadcastCapacity \<longrightarrow>
        Broadcast marshal msg h = h\<lparr>broadcast := broadcast h @ [data]\<rparr>) \<and>
     (broadcast h = message # rest \<and> length (send (clients h ! i)) < sendCapacity \<longrightarrow>
        (clients h ! i)\<lparr>send := send (clients h ! i) @ [message]\<rparr>
          \<in> set (clients (Run RecvBroadcast h)))"
proof -
  let ?c = "clients h ! i"
  let ?match = "subscriptions ?c = [] \<or> map_of (subscriptions ?c) projectID = Some True"
  have sub: "IsSubscribed ?c projectID = ?match"
    by (auto simp: IsSubscribed_def split: option.splits)
  have upd: "clients (BroadcastToSubscribers marshal projectID msg h) ! i =
             (if IsSubscribed ?c projectID then trySend data ?c else ?c)"
    using assms by (simp add: BroadcastToSubscribers_def)
  have 1: "length (clients (BroadcastToSubscribers marshal projectID msg h)) = length (clients h)"
    using assms(1) by (simp add: BroadcastToSubscribers_def)
  have b: "broadcast (BroadcastToSubscribers marshal projectID msg h) = broadcast h"
    using assms(1) by (simp add: BroadcastToSubscribers_def)
  have 2: "clients (BroadcastToSubscribers marshal projectID msg h) ! i =
       (if ?match \<and> length (send ?c) < sendCapacity
        then ?c\<lparr>send := send ?c @ [data]\<rparr> else ?c)"
    unfolding upd sub by (simp add: trySend_def)
  have 3: "map fst (subscriptions ?c) = [x] \<and> projectID \<noteq> x \<longrightarrow>
        clients (BroadcastToSubscribers marshal projectID msg h) ! i = ?c"
    unfolding 2 using single_key_no_match [of "subscriptions ?c" x projectID] by simp
  have 4: "(subscriptions (fold Subscribe ids (NewClient n)) = []) = (ids = [])"
    by (rule subscriptions_empty_iff)
  have 5: "(map_of (subscriptions (fold Subscribe ids (NewClient n))) projectID = Some True)
        = (projectID \<in> set ids)"
    by (rule subscribed_key_iff)
  have 6: "length (broadcast h) < broadcastCapacity \<longrightarrow>
        Broadcast marshal msg h = h\<lparr>broadcast := broadcast h @ [data]\<rparr>"
    using assms(1) by (simp add: Broadcast_def)
  have 7: "broadcast h = message # rest \<and> length (send ?c) < sendCapacity \<longrightarrow>
        ?c\<lparr>send := send ?c @ [message]\<rparr> \<in> set (clients (Run RecvBroadcast h))"
  proof (intro impI, elim conjE)
    assume e: "broadcast h = message # rest" and room: "length (send ?c) < sendCapacity"
    have mem: "?c \<in> set (clients h)" using assms(2) by simp
    have run: "clients (Run RecvBroadcast h) =
          map (\<lambda>client. client\<lparr>send := send client @ [message]\<rparr>)
            (filter (\<lambda>client. length (send client) < sendCapacity) (clients h))"
      using e by simp
    show "?c\<lparr>send := send ?c @ [message]\<rparr> \<in> set (clients (Run RecvBroadcast h))"
      unfolding run using mem room by auto
  qed
  from 1 b 2 3 4 5 6 7 show ?thesis by (intro conjI)
qed

text \<open>
  The claim as stated fails twice.  A client with an empty subscription map and a full
  send channel does not receive a broadcast scoped to project Y.  A client subscribed to
  X only receives a message scoped to Y that is sent with \<open>Broadcast\<close>.
\<close>

theorem subscription_filtering_counterexample:
  "subscriptions fullClient = [] \<and>
   clients (BroadcastToSubscribers sampleMarshal ''Y'' (statusMessage ''Y'')
     \<lparr>clients = [fullClient], broadcast = []\<rparr>) = [fullClient] \<and>
   \<not> IsSubscribed (Subscribe ''X'' (NewClient 1)) ''Y'' \<and>
   map send (clients (Run RecvBroadcast (Broadcast sampleMarshal (statusMessage ''Y'')
     \<lparr>clients = [Subscribe ''X'' (NewClient 1)], broadcast = []\<rparr>))) = [[''project_status:Y:'']]"
  by (simp add: fullClient_def BroadcastToSubscribers_def sampleMarshal_def statusMessage_def
      IsSubscribed_def trySend_def sendCapacity_def Subscribe_def NewClient_def Broadcast_def
      broadcastCapacity_def)

lemma threeClients_facts:
  "sampleMarshal (statusMessage ''Y'') = Some ''project_status:Y:''"
  "sampleMarshal (statusMessage ''X'') = Some ''project_status:X:''"
  "clients threeClients =
     [\<lparr>conn = 1, send = [], subscriptions = []\<rparr>,
      \<lparr>conn = 3, send = [], subscriptions = [(''X'', True), (''Z'', True)]\<rparr>,
      fullClient]"
  "broadcast threeClients = [''queued'']"
  by (simp_all add: threeClients_def sampleMarshal_def statusMessage_def NewClient_def Subscribe_def)

text \<open>
  At a hub with a client without subscriptions, a client subscribed to X and Z, and a
  client whose send channel is full: a broadcast scoped to Y reaches the first only, one
  scoped to X reaches the second, and the message waiting on the broadcast channel is
  queued for the second by the event loop.
\<close>

theorem subscription_filtering_witness:
  "clients (BroadcastToSubscribers sampleMarshal ''Y'' (statusMessage ''Y'') threeClients) ! 0
     = \<lparr>conn = 1, send = [''project_status:Y:''], subscriptions = []\<rparr> \<and>
   clients (BroadcastToSubscribers sampleMarshal ''Y'' (statusMessage ''Y'') threeClients) ! 1
     = \<lparr>conn = 3, send = [], subscriptions = [(''X'', True), (''Z'', True)]\<rparr> \<and>
   clients (BroadcastToSubscribers sampleMarshal ''X'' (statusMessage ''X'') threeClients) ! 1
     = \<lparr>conn = 3, send = [''project_status:X:''], subscriptions = [(''X'', True), (''Z'', True)]\<rparr> \<and>
   clients (BroadcastToSubscribers sampleMarshal ''Y'' (statusMessage ''Y'') threeClients) ! 2
     = fullClient \<and>
   \<lparr>conn = 3, send = [''queued''], subscriptions = [(''X'', True), (''Z'', True)]\<rparr>
     \<in> set (clients (Run RecvBroadcast threeClients))"
  using
    subscription_filtering [of sampleMarshal "statusMessage ''Y''" "''project_status:Y:''" 0
      threeClients "''Y''" "''X''" "[]" 0 "''queued''" "[]"]
    subscription_filtering [of sampleMarshal "statusMessage ''Y''" "''project_status:Y:''" 1
      threeClients "''Y''" "''X''" "[]" 0 "''queued''" "[]"]
    subscription_filtering [of sampleMarshal "statusMessage ''X''" "''project_status:X:''" 1
      threeClients "''X''" "''Y''" "[]" 0 "''queued''" "[]"]
    subscription_filtering [of sampleMarshal "statusMessage ''Y''" "''project_status:Y:''" 2
      threeClients "''Y''" "''X''" "[]" 0 "''queued''" "[]"]
  by (simp add: threeClients_facts fullClient_def sendCapacity_def)

section \<open>Refresh, lifecycle operations and preferences\<close>

lemma protectByContainers_ID [simp]: "ID (protectByContainers lib proj ctrs) = ID proj"
  by (induction ctrs) (auto split: prod.splits bool.splits)

lemma applyProtection_ID [simp]: "ID (applyProtection lib m proj) = ID proj"
  by (simp add: applyProtection_def)

lemma attachContainers_frame [simp]:
  "ID (attachContainers docker byProject proj) = ID proj"
  "Protected (attachContainers docker byProject proj) = Protected proj"
  "ProtectionReason (attachContainers docker byProject proj) = ProtectionReason proj"
  by (simp_all add: attachContainers_def Let_def split: option.splits)

lemma applyProtection_sticky:
  "Protected proj \<Longrightarrow> applyProtection lib m proj = proj"
  by (simp add: applyProtection_def)

lemma refreshOne_ID [simp]: "ID (refreshOne lib docker now m prefs byProject proj) = ID proj"
  by (simp add: refreshOne_def Let_def split: option.splits)

lemma refreshOne_sticky:
  assumes "projects m (ID proj) = Some existing" and "Protected existing"
  shows "Protected (refreshOne lib docker now m prefs byProject proj) \<and>
         ProtectionReason (refreshOne lib docker now m prefs byProject proj)
           = ProtectionReason existing"
  using assms
  by (simp add: refreshOne_def Let_def applyProtection_sticky split: option.splits)

lemma refreshLoop_sticky:
  assumes "projects m pid = Some existing" and "Protected existing"
    and "list_ex (\<lambda>p. ID p = pid) scanned \<or>
         (\<exists>q. acc pid = Some q \<and> Protected q \<and> ProtectionReason q = ProtectionReason existing)"
  shows "\<exists>q. refreshLoop lib docker now m prefs byProject scanned acc pid = Some q \<and>
           Protected q \<and> ProtectionReason q = ProtectionReason existing"
  using assms(3)
proof (induction scanned arbitrary: acc)
  case Nil
  then show ?case by simp
next
  case (Cons p ps)
  let ?p' = "refreshOne lib docker now m prefs byProject p"
  let ?acc' = "acc(ID ?p' \<mapsto> ?p')"
  have "\<exists>q. ?acc' pid = Some q \<and> Protected q \<and> ProtectionReason q = ProtectionReason existing"
    if "ID p = pid"
    using that assms(1,2) refreshOne_sticky [of m p existing lib docker now prefs byProject]
    by simp
  moreover have "?acc' pid = acc pid" if "ID p \<noteq> pid"
    using that by simp
  ultimately have
    "list_ex (\<lambda>p. ID p = pid) ps \<or>
     (\<exists>q. ?acc' pid = Some q \<and> Protected q \<and> ProtectionReason q = ProtectionReason existing)"
    using Cons.prems by (cases "ID p = pid") auto
  then have "\<exists>q. refreshLoop lib docker now m prefs byProject ps ?acc' pid = Some q \<and>
           Protected q \<and> ProtectionReason q = ProtectionReason existing"
    by (rule Cons.IH [of ?acc'])
  then show ?case by (simp add: Let_def)
qed

lemma Refresh_sticky:
  assumes "projects m pid = Some existing" and "Protected existing" and "finds pid scan"
  shows "\<exists>q. projects (snd (Refresh lib docker now scan m)) pid = Some q \<and>
           Protected q \<and> ProtectionReason q = ProtectionReason existing"
proof (cases scan)
  case (Inl err)
  with assms(3) show ?thesis by (simp add: finds_def)
next
  case (Inr scanned)
  with assms(3) have ex: "list_ex (\<lambda>p. ID p = pid) scanned" by (simp add: finds_def)
  show ?thesis
  proof (cases "GetContainersByComposeProject docker")
    case (Inl err)
    with Inr assms(1,2) show ?thesis by (simp add: Refresh_def)
  next
    case (Inr byProject)
    from refreshLoop_sticky [OF assms(1,2), of scanned Map.empty] ex
    show ?thesis using Inr \<open>scan = Inr scanned\<close> by (simp add: Refresh_def Let_def)
  qed
qed

lemma protectedWith_iff:
  "protectedWith m pid r = (\<exists>q. projects m pid = Some q \<and> Protected q \<and> ProtectionReason q = r)"
  by (simp add: protectedWith_def split: option.splits)

lemma Refresh_protectedWith:
  assumes "protectedWith m pid r" and "finds pid scan"
  shows "protectedWith (snd (Refresh lib docker now scan m)) pid r"
proof -
  from assms(1) obtain q where q: "projects m pid = Some q" "Protected q" "ProtectionReason q = r"
    unfolding protectedWith_iff by blast
  from Refresh_sticky [OF q(1,2) assms(2), of lib docker now] q(3)
  show ?thesis unfolding protectedWith_iff by simp
qed

lemma refreshProject_protectedWith:
  assumes "protectedWith m pid r"
  shows "protectedWith (snd (refreshProject docker now m pid')) pid r"
  using assms
  by (auto simp: refreshProject_def protectedWith_def Let_def split: sum.splits option.splits)

lemma lifecycle_protectedWith:
  assumes "protectedWith m pid r"
  shows "protectedWith (fst (snd (StartProject lib docker now m pid'))) pid r"
    and "protectedWith (fst (snd (StopProject lib docker now m pid' force))) pid r"
    and "protectedWith (fst (snd (RestartProject lib docker now m pid'))) pid r"
  using assms refreshProject_protectedWith [OF assms, of docker now pid']
  by (auto simp: StartProject_def StopProject_def RestartProject_def GetProject_def
      split: sum.splits option.splits prod.splits)

lemma preferences_protectedWith:
  assumes "protectedWith m pid r"
  shows "protectedWith (snd (SetProjectDisplayName now m pid' displayName)) pid r"
    and "protectedWith (snd (SetProjectHidden now m pid' hid)) pid r"
  using assms
  by (auto simp: SetProjectDisplayName_def SetProjectHidden_def protectedWith_def
      split: sum.splits option.splits)

lemma SetProjectProtection_other:
  assumes "protectedWith m pid r" and "pid' \<noteq> pid"
  shows "protectedWith (snd (SetProjectProtection now m pid' protected reason)) pid r"
  using assms by (auto simp: SetProjectProtection_def protectedWith_def split: option.splits)

lemma applyOp_protectedWith:
  assumes "protectedWith m pid r" and "implicitFor pid op"
  shows "protectedWith (applyOp lib op m) pid r"
  using assms
  by (cases op)
     (simp_all add: Refresh_protectedWith lifecycle_protectedWith preferences_protectedWith
        SetProjectProtection_other)

text \<open>
  C1.  Protection is sticky: a project that is in the manager's map with its protection
  flag set is, after any number of refresh passes whose scans each find its identifier,
  still in the map with the flag set and the same protection reason.  The same holds
  when the passes are interleaved with any other operations of the manager except
  \<open>SetProjectProtection\<close> for this project: only that explicit call changes the
  protection, and with \<open>false\<close> it clears it.
\<close>

theorem protection_sticky:
  assumes "projects m pid = Some proj" and "Protected proj"
    and "\<forall>op\<in>set ops. implicitFor pid op"
  shows "protectedWith (fold (applyOp lib) ops m) pid (ProtectionReason proj) \<and>
         (\<exists>proj'. projects (fold (applyOp lib) ops m) pid = Some proj' \<and>
            Protected proj' \<and> ProtectionReason proj' = ProtectionReason proj) \<and>
         \<not> protectedWith (applyOp lib (SetProtectionOp now pid False reason) m) pid
             (ProtectionReason proj)"
proof -
  have start: "protectedWith m pid (ProtectionReason proj)"
    using assms(1,2) by (simp add: protectedWith_def)
  have "protectedWith (fold (applyOp lib) ops m) pid r"
    if "protectedWith m pid r" and "\<forall>op\<in>set ops. implicitFor pid op" for r
    using that
  proof (induction ops arbitrary: m)
    case Nil
    then show ?case by simp
  next
    case (Cons op ops)
    then have "protectedWith (applyOp lib op m) pid r" by (simp add: applyOp_protectedWith)
    with Cons show ?case by simp
  qed
  from this [OF start assms(3)]
  have kept: "protectedWith (fold (applyOp lib) ops m) pid (ProtectionReason proj)" .
  moreover have "\<not> protectedWith (applyOp lib (SetProtectionOp now pid False reason) m) pid
      (ProtectionReason proj)"
    using assms(1) by (simp add: SetProjectProtection_def protectedWith_def)
  ultimately show ?thesis by (simp add: protectedWith_iff)
qed

text \<open>
  Two passes, with a forced stop between them, over a manager that holds the protected
  project \<open>p1\<close>; the scanner hands \<open>p1\<close> over unprotected each time.
\<close>

theorem protection_sticky_witness:
  "map_option (\<lambda>p. (Protected p, ProtectionReason p, UpdatedAt p))
     (projects
       (fold (applyOp asciiLib)
         [RefreshOp idleDocker 10 (Inr [project ''p1'' ''blog'' ''compose.yml'']),
          StopOp idleDocker 15 ''p1'' True,
          RefreshOp idleDocker 20
            (Inr [project ''p2'' ''shop'' ''compose.yml'', project ''p1'' ''blog'' ''compose.yml''])]
         (sampleManager False)) ''p1'')
     = Some (True, ''user_marked'', 20) \<and>
   Protected (project ''p1'' ''blog'' ''compose.yml'') = False \<and>
   map_option Protected
     (projects (applyOp asciiLib (SetProtectionOp 30 ''p1'' False []) (sampleManager False)) ''p1'')
     = Some False"
  using protection_sticky
    [of "sampleManager False" "''p1''"
      "(project ''p1'' ''blog'' ''compose.yml'')\<lparr>Protected := True, ProtectionReason := ProtectionUserMarked\<rparr>"
      "[RefreshOp idleDocker 10 (Inr [project ''p1'' ''blog'' ''compose.yml'']),
        StopOp idleDocker 15 ''p1'' True,
        RefreshOp idleDocker 20
          (Inr [project ''p2'' ''shop'' ''compose.yml'', project ''p1'' ''blog'' ''compose.yml''])]"
      asciiLib 30 "[]"]
  by (simp add: sampleManager_def finds_def project_def ProtectionUserMarked_def
      Refresh_def idleDocker_def GetAllPreferences_def refreshOne_def attachContainers_def
      applyProtection_def Let_def StopProject_def GetProject_def ComposeDown_def
      runComposeCommand_def refreshProject_def SetProjectProtection_def protectedWith_def
      determineProjectStatus_def)


text \<open>
  C2.  For a project in the map whose \<open>Protected\<close> flag is set: \<open>StopProject\<close> without
  force returns the protection error, leaves the manager unchanged and issues no compose
  invocation; with force it issues the invocation \<open>compose -f <file> down\<close> in the
  project's directory; \<open>RestartProject\<close>, which has no force argument, returns its
  protection error, leaves the manager unchanged and issues no invocation.
\<close>

theorem protected_stop_restart:
  assumes "projects m pid = Some proj" and "Protected proj"
  shows
    "StopProject lib docker now m pid False
       = (Some (ProtectedStop (Name proj) (ProtectionReason proj)), m, []) \<and>
     snd (snd (StopProject lib docker now m pid True))
       = [\<lparr>inv_Dir = Dir lib (ComposeFilePath proj),
           inv_Args = [''compose'', ''-f'', Base lib (ComposeFilePath proj), ''down'']\<rparr>] \<and>
     RestartProject lib docker now m pid
       = (Some (ProtectedRestart (Name proj) (ProtectionReason proj)), m, [])"
  using assms
  by (auto simp: StopProject_def RestartProject_def GetProject_def ComposeDown_def
      runComposeCommand_def Let_def split: prod.splits option.splits)

theorem protected_stop_restart_witness:
  "StopProject asciiLib idleDocker 5 (sampleManager False) ''p1'' False
     = (Some (ProtectedStop ''blog'' ''user_marked''), sampleManager False, []) \<and>
   snd (snd (StopProject asciiLib idleDocker 5 (sampleManager False) ''p1'' True))
     = [\<lparr>inv_Dir = ''/srv/blog'', inv_Args = [''compose'', ''-f'', ''compose.yml'', ''down'']\<rparr>] \<and>
   RestartProject asciiLib idleDocker 5 (sampleManager False) ''p1''
     = (Some (ProtectedRestart ''blog'' ''user_marked''), sampleManager False, [])"
  using protected_stop_restart
    [of "sampleManager False" "''p1''"
      "(project ''p1'' ''blog'' ''compose.yml'')\<lparr>Protected := True, ProtectionReason := ProtectionUserMarked\<rparr>"
      asciiLib idleDocker 5]
  by (simp add: sampleManager_def project_def ProtectionUserMarked_def asciiLib_def)


text \<open>
  C8.  With a preference store configured: when the store's \<open>SetDisplayName\<close> (or
  \<open>SetHidden\<close>) fails, \<open>SetProjectDisplayName\<close> (or \<open>SetProjectHidden\<close>) returns an
  error and the manager, with the project's fields, is as before; and whenever the call
  changes the manager, the store's call has succeeded.
\<close>

theorem preference_mutation_atomic:
  assumes "store m = Some st"
  shows
    "(SetDisplayName st pid displayName = Inl err \<longrightarrow>
        fst (SetProjectDisplayName now m pid displayName) \<noteq> None \<and>
        snd (SetProjectDisplayName now m pid displayName) = m) \<and>
     (SetHidden st pid hid = Inl err \<longrightarrow>
        fst (SetProjectHidden now m pid hid) \<noteq> None \<and>
        snd (SetProjectHidden now m pid hid) = m) \<and>
     (snd (SetProjectDisplayName now m pid displayName) \<noteq> m \<longrightarrow>
        (\<exists>st'. SetDisplayName st pid displayName = Inr st')) \<and>
     (snd (SetProjectHidden now m pid hid) \<noteq> m \<longrightarrow>
        (\<exists>st'. SetHidden st pid hid = Inr st'))"
  using assms
  by (auto simp: SetProjectDisplayName_def SetProjectHidden_def split: option.splits sum.splits)

lemma preference_mutation_success:
  assumes "projects m pid = Some proj" and "store m = Some st"
    and "SetDisplayName st pid displayName = Inr st'"
  shows "SetProjectDisplayName now m pid displayName =
     (None, m\<lparr>store := Some st',
              projects := (projects m)(pid \<mapsto> proj\<lparr>DisplayName := displayName, UpdatedAt := now\<rparr>)\<rparr>)"
  using assms by (simp add: SetProjectDisplayName_def)

theorem preference_mutation_atomic_witness:
  "SetDisplayName \<lparr>rows = Map.empty, failing = True\<rparr> ''p1'' ''Blog'' = Inl (External ''sql'') \<and>
   SetProjectDisplayName 5 (sampleManager True) ''p1'' ''Blog''
     = (Some (Wrapped ''saving display name'' (External ''sql'')), sampleManager True) \<and>
   SetProjectHidden 5 (sampleManager True) ''p1'' True
     = (Some (Wrapped ''saving hidden status'' (External ''sql'')), sampleManager True)"
  using preference_mutation_atomic
    [of "sampleManager True" "\<lparr>rows = Map.empty, failing = True\<rparr>" "''p1''" "''Blog''"
      "External ''sql''" 5 True]
  by (simp add: sampleManager_def SetProjectDisplayName_def SetProjectHidden_def
      SetDisplayName_def SetHidden_def)

section \<open>The listing is sorted\<close>

lemma swapNeeded_iff: "swapNeeded a b = (\<not> projectLe a b)"
  by (auto simp: swapNeeded_def projectLe_def)

lemma projectLe_total: "projectLe a b \<or> projectLe b a"
  by (auto simp: projectLe_def)

lemma projectLe_trans: "projectLe a b \<Longrightarrow> projectLe b c \<Longrightarrow> projectLe a c"
  by (auto simp: projectLe_def)

declare sortInner.simps [simp del] sortOuter.simps [simp del]

lemma sortInner_length [simp]: "length (sortInner n i j ps) = length ps"
proof (induction n i j ps rule: sortInner.induct)
  case (1 n i j ps)
  show ?case
  proof (cases "j < n")
    case True
    with 1 show ?thesis by (subst sortInner.simps) simp
  next
    case False
    then show ?thesis by (subst sortInner.simps) simp
  qed
qed

lemma sortInner_mset:
  "i < length ps \<Longrightarrow> n \<le> length ps \<Longrightarrow> mset (sortInner n i j ps) = mset ps"
proof (induction n i j ps rule: sortInner.induct)
  case (1 n i j ps)
  show ?case
  proof (cases "j < n")
    case True
    let ?ps' = "if swapNeeded (ps ! i) (ps ! j) then ps[i := ps ! j, j := ps ! i] else ps"
    have len: "length ?ps' = length ps" by simp
    have "mset ?ps' = mset ps"
      using True "1.prems" by (simp add: mset_swap)
    moreover have "mset (sortInner n i (j + 1) ?ps') = mset ?ps'"
      using "1.IH" [OF True] "1.prems" len by simp
    ultimately show ?thesis using True by (subst sortInner.simps) simp
  next
    case False
    then show ?thesis by (subst sortInner.simps) simp
  qed
qed

lemma sortInner_prefix:
  "k < i \<Longrightarrow> i < j \<Longrightarrow> sortInner n i j ps ! k = ps ! k"
proof (induction n i j ps rule: sortInner.induct)
  case (1 n i j ps)
  show ?case
  proof (cases "j < n")
    case True
    let ?ps' = "if swapNeeded (ps ! i) (ps ! j) then ps[i := ps ! j, j := ps ! i] else ps"
    have "sortInner n i (j + 1) ?ps' ! k = ?ps' ! k"
      using "1.IH" [OF True] "1.prems" by simp
    moreover have "?ps' ! k = ps ! k" using "1.prems" by simp
    ultimately show ?thesis using True by (subst sortInner.simps) simp
  next
    case False
    then show ?thesis by (subst sortInner.simps) simp
  qed
qed

lemma sortInner_least:
  assumes "i < j" and "n = length ps"
    and "\<forall>k. i < k \<and> k < j \<longrightarrow> projectLe (ps ! i) (ps ! k)"
  shows "\<forall>k. i < k \<and> k < n \<longrightarrow> projectLe (sortInner n i j ps ! i) (sortInner n i j ps ! k)"
  using assms
proof (induction n i j ps rule: sortInner.induct)
  case (1 n i j ps)
  show ?case
  proof (cases "j < n")
    case True
    define ps' where "ps' = (if swapNeeded (ps ! i) (ps ! j) then ps[i := ps ! j, j := ps ! i] else ps)"
    have jl: "j < length ps" and il: "i < length ps" using True "1.prems" by auto
    have len: "n = length ps'" using "1.prems"(2) by (simp add: ps'_def)
    have inv: "\<forall>k. i < k \<and> k < j + 1 \<longrightarrow> projectLe (ps' ! i) (ps' ! k)"
    proof (intro allI impI)
      fix k assume k: "i < k \<and> k < j + 1"
      show "projectLe (ps' ! i) (ps' ! k)"
      proof (cases "swapNeeded (ps ! i) (ps ! j)")
        case True
        then have ji: "projectLe (ps ! j) (ps ! i)"
          using projectLe_total [of "ps ! i" "ps ! j"] by (simp add: swapNeeded_iff)
        show ?thesis
        proof (cases "k = j")
          case True
          with \<open>swapNeeded (ps ! i) (ps ! j)\<close> ji jl il "1.prems"(1) show ?thesis
            by (simp add: ps'_def)
        next
          case False
          with k have kj: "k < j" by simp
          with k "1.prems"(3) have "projectLe (ps ! i) (ps ! k)" by simp
          with ji have "projectLe (ps ! j) (ps ! k)" by (rule projectLe_trans)
          with \<open>swapNeeded (ps ! i) (ps ! j)\<close> kj k jl il "1.prems"(1) show ?thesis
            by (simp add: ps'_def)
        qed
      next
        case False
        then have "projectLe (ps ! i) (ps ! j)" by (simp add: swapNeeded_iff)
        with False k "1.prems"(3) show ?thesis by (cases "k = j") (auto simp: ps'_def)
      qed
    qed
    have step: "sortInner n i j ps = sortInner n i (j + 1) ps'"
      using True by (subst sortInner.simps) (simp add: ps'_def)
    have "i < j + 1" using "1.prems"(1) by simp
    from "1.IH" [OF True this, folded ps'_def, OF len inv]
    show ?thesis by (simp only: step)
  next
    case False
    have "sortInner n i j ps = ps" using False by (subst sortInner.simps) simp
    with False "1.prems" show ?thesis by simp
  qed
qed

lemma sortInner_take:
  assumes "i < j"
  shows "take i (sortInner n i j ps) = take i ps"
  using assms by (intro nth_equalityI) (simp_all add: sortInner_prefix)

lemma sortInner_drop_mset:
  assumes "i < j" and "i < length ps" and "n \<le> length ps"
  shows "mset (drop i (sortInner n i j ps)) = mset (drop i ps)"
proof -
  let ?ps' = "sortInner n i j ps"
  have "mset (take i ?ps') + mset (drop i ?ps') = mset (take i ps) + mset (drop i ps)"
    using sortInner_mset [OF assms(2,3), of j]
    by (simp only: mset_append [symmetric] append_take_drop_id)
  then show ?thesis by (simp add: sortInner_take [OF assms(1)])
qed

lemma sortInv_step:
  assumes "i < n" and "n = length ps" and "sortInv i ps"
  shows "sortInv (i + 1) (sortInner n i (i + 1) ps)"
proof -
  let ?ps' = "sortInner n i (i + 1) ps"
  have il: "i < length ps" using assms by simp
  have il': "i < length ?ps'" using il by simp
  have tk: "take i ?ps' = take i ps" by (simp add: sortInner_take)
  have "mset (drop i ?ps') = mset (drop i ps)"
    by (rule sortInner_drop_mset) (use il assms(2) in simp_all)
  then have dr: "set (drop i ?ps') = set (drop i ps)"
    by (rule mset_eq_setD)
  have least: "\<forall>k. i < k \<and> k < n \<longrightarrow> projectLe (?ps' ! i) (?ps' ! k)"
    by (rule sortInner_least) (use assms(2) in auto)
  have "drop i ?ps' = ?ps' ! i # drop (Suc i) ?ps'"
    using il' by (rule Cons_nth_drop_Suc [symmetric])
  then have mem: "?ps' ! i \<in> set (drop i ?ps')" by simp
  have tk1: "take (i + 1) ?ps' = take i ps @ [?ps' ! i]"
    using il' tk by (simp add: take_Suc_conv_app_nth)
  have a: "\<forall>a\<in>set (take i ps). projectLe a (?ps' ! i)"
    using assms(3) mem dr by (simp add: sortInv_def)
  have s: "sorted_wrt projectLe (take (i + 1) ?ps')"
    unfolding tk1 using assms(3) a by (simp add: sorted_wrt_append sortInv_def)
  have b: "projectLe x y" if "x \<in> set (take (i + 1) ?ps')" and "y \<in> set (drop (i + 1) ?ps')" for x y
  proof -
    from that(2) obtain m where m: "m < length (drop (i + 1) ?ps')" "drop (i + 1) ?ps' ! m = y"
      unfolding in_set_conv_nth by blast
    define k where "k = i + 1 + m"
    have k: "i + 1 \<le> k" "k < length ?ps'" "y = ?ps' ! k"
      using m by (simp_all add: k_def)
    from that(1) have "x \<in> set (take i ps) \<or> x = ?ps' ! i" unfolding tk1 by auto
    then show ?thesis
    proof
      assume "x \<in> set (take i ps)"
      moreover have "y \<in> set (drop i ?ps')"
        using k il' by (auto simp: in_set_conv_nth intro!: exI [of _ "k - i"])
      then have "y \<in> set (drop i ps)" by (simp only: dr)
      ultimately show ?thesis using assms(3) by (simp add: sortInv_def)
    next
      assume "x = ?ps' ! i"
      with least k assms(2) show ?thesis by simp
    qed
  qed
  from s b show ?thesis by (simp add: sortInv_def)
qed

lemma sortOuter_sorted:
  assumes "n = length ps" and "i \<le> n" and "sortInv i ps"
  shows "sorted_wrt projectLe (sortOuter n i ps) \<and> mset (sortOuter n i ps) = mset ps"
  using assms
proof (induction n i ps rule: sortOuter.induct)
  case (1 n i ps)
  show ?case
  proof (cases "i < n")
    case True
    let ?ps' = "sortInner n i (i + 1) ps"
    have step: "sortOuter n i ps = sortOuter n (i + 1) ?ps'"
      using True by (subst sortOuter.simps) simp
    have "sortInv (i + 1) ?ps'" using True "1.prems" by (intro sortInv_step)
    moreover have "n = length ?ps'" using "1.prems" by simp
    moreover have "i + 1 \<le> n" using True by simp
    ultimately have "sorted_wrt projectLe (sortOuter n (i + 1) ?ps') \<and>
        mset (sortOuter n (i + 1) ?ps') = mset ?ps'"
      using "1.IH" [OF True] by blast
    moreover have "mset ?ps' = mset ps"
      using True "1.prems" by (intro sortInner_mset) auto
    ultimately show ?thesis by (simp only: step)
  next
    case False
    have "sortOuter n i ps = ps" using False by (subst sortOuter.simps) simp
    moreover have "take i ps = ps" using False "1.prems" by simp
    ultimately show ?thesis using "1.prems"(3) by (simp add: sortInv_def)
  qed
qed


lemma map_filter_all:
  assumes "set xs \<subseteq> dom f"
  shows "length (List.map_filter f xs) = length xs"
    and "set (List.map_filter f xs) = {y. \<exists>x\<in>set xs. f x = Some y}"
proof -
  have "filter (\<lambda>x. f x \<noteq> None) xs = xs" using assms by (auto simp: filter_id_conv)
  then show "length (List.map_filter f xs) = length xs" by (simp add: List.map_filter_def)
  show "set (List.map_filter f xs) = {y. \<exists>x\<in>set xs. f x = Some y}"
    by (force simp: List.map_filter_def)
qed

text \<open>
  C7.  Whatever the map holds and in whatever order the range over it yields the entries
  (\<open>order\<close>: any enumeration of the keys), \<open>ListProjects\<close> returns all entries of the
  map, each once, in an order that is ascending by name with ties broken ascending by the
  name of the compose file; any two projects are comparable in this order.
\<close>

theorem ListProjects_sorted:
  assumes "distinct order" and "set order = dom (projects m)"
  shows "sorted_wrt projectLe (ListProjects m order) \<and>
         set (ListProjects m order) = ran (projects m) \<and>
         length (ListProjects m order) = card (dom (projects m)) \<and>
         (\<forall>a b. projectLe a b \<or> projectLe b a)"
proof -
  let ?ps = "List.map_filter (projects m) order"
  have sub: "set order \<subseteq> dom (projects m)" using assms(2) by simp
  have "sortInv 0 ?ps" by (simp add: sortInv_def)
  then have srt: "sorted_wrt projectLe (sortOuter (length ?ps) 0 ?ps)"
    and ms: "mset (sortOuter (length ?ps) 0 ?ps) = mset ?ps"
    using sortOuter_sorted [of "length ?ps" ?ps 0] by simp_all
  have "set (sortOuter (length ?ps) 0 ?ps) = set ?ps" using ms by (rule mset_eq_setD)
  also have "\<dots> = ran (projects m)"
    using assms(2) by (auto simp: map_filter_all(2) [OF sub] ran_def)
  finally have st: "set (ListProjects m order) = ran (projects m)"
    by (simp add: ListProjects_def Let_def)
  have "length (sortOuter (length ?ps) 0 ?ps) = length ?ps" using ms by (rule mset_eq_length)
  also have "\<dots> = length order" by (rule map_filter_all(1) [OF sub])
  also have "\<dots> = card (dom (projects m))"
    using assms by (metis distinct_card)
  finally have ln: "length (ListProjects m order) = card (dom (projects m))"
    by (simp add: ListProjects_def Let_def)
  from srt st ln projectLe_total show ?thesis by (simp add: ListProjects_def Let_def)
qed

text \<open>Three projects, two of the same name, listed from two iteration orders.\<close>

lemma threeProjects_listed:
  "map ID (ListProjects threeProjects [''p1'', ''p2'', ''p3'']) = [''p3'', ''p2'', ''p1'']"
  "map ID (ListProjects threeProjects [''p2'', ''p3'', ''p1'']) = [''p3'', ''p2'', ''p1'']"
  by (simp_all add: ListProjects_def threeProjects_def project_def List.map_filter_def
      sortOuter.simps sortInner.simps swapNeeded_def)

theorem ListProjects_sorted_witness:
  "sorted_wrt projectLe (ListProjects threeProjects [''p2'', ''p3'', ''p1'']) \<and>
   map ID (ListProjects threeProjects [''p2'', ''p3'', ''p1'']) = [''p3'', ''p2'', ''p1''] \<and>
   map ID (ListProjects threeProjects [''p1'', ''p2'', ''p3'']) = [''p3'', ''p2'', ''p1'']"
proof -
  have d: "distinct [''p2'', ''p3'', ''p1'']" by simp
  have s: "set [''p2'', ''p3'', ''p1''] = dom (projects threeProjects)"
    by (auto simp: threeProjects_def)
  show ?thesis
    using ListProjects_sorted [OF d s] threeProjects_listed by simp
qed

section \<open>Sanitized project names\<close>

lemma RuneLen_pos: "0 < RuneLen r"
  by (simp add: RuneLen_def)

lemma sanitizeLoop_later:
  "0 < i \<Longrightarrow> sanitizeLoop i rs result = result @ map sanitizeRune rs"
proof (induction rs arbitrary: i result)
  case Nil
  show ?case by simp
next
  case (Cons r rs)
  have "0 < i + RuneLen r" using RuneLen_pos [of r] by simp
  from Cons.IH [OF this] Cons.prems show ?case
    by (simp add: Let_def sanitizeRune_def)
qed

lemma sanitizeLoop_first:
  "sanitizeLoop 0 (r # rs) [] =
     (if alnumRune r then [char_of r] else ''p-'') @ map sanitizeRune rs"
proof -
  have "sanitizeLoop (RuneLen r) rs result = result @ map sanitizeRune rs" for result
    using RuneLen_pos by (rule sanitizeLoop_later)
  then show ?thesis by (auto simp: Let_def alnumRune_def)
qed

lemma char_of_runeOf [simp]: "char_of (runeOf c) = c"
  by (simp add: runeOf_def)

lemma separator_runes:
  "\<not> alnumRune (runeOf CHR ''-'')" "\<not> alnumRune (runeOf CHR ''_'')"
  by (simp_all add: alnumRune_def isLower_def isDigit_def runeOf_def)

lemma alnum_char:
  assumes "alnumRune r"
  shows "slugChar (char_of r)" and "\<not> separator (char_of r)"
proof -
  from assms have "r < 256" by (auto simp: alnumRune_def isLower_def isDigit_def runeOf_def)
  then have m: "r mod 256 = r" by simp
  show "slugChar (char_of r)"
    using assms by (auto simp: slugChar_def alnumRune_def isLower_def isDigit_def runeOf_def
        less_eq_char_def m)
  show "\<not> separator (char_of r)"
    using assms by (auto simp: separator_def alnumRune_def isLower_def isDigit_def runeOf_def
        char_of_eq_iff take_bit_eq_mod m)
qed

lemma sanitizeRune_cases:
  "sanitizeRune r = (if alnumRune r then char_of r else if r = runeOf CHR ''_'' then CHR ''_'' else CHR ''-'')"
  by (auto simp: sanitizeRune_def alnumRune_def)

lemma sanitizeRune_slug: "slugChar (sanitizeRune r)"
  using alnum_char(1) [of r] by (simp add: sanitizeRune_cases slugChar_def)

lemma sanitizeRune_separator: "separator (sanitizeRune r) = (\<not> alnumRune r)"
  using alnum_char(2) [of r] by (simp add: sanitizeRune_cases separator_def)


lemma Trim_eq: "Trim s ''-_'' = trimRight (dropWhile separator s)"
proof -
  have "(\<lambda>c. c \<in> set ''-_'') = separator" by (simp add: separator_def fun_eq_iff)
  then show ?thesis by (simp add: Trim_def trimRight_def)
qed

lemma set_trimRight: "set (trimRight s) \<subseteq> set s"
  using set_dropWhileD [of _ separator "rev s"] by (auto simp: trimRight_def)

lemma trimRight_append_keep:
  assumes "\<exists>x\<in>set b. \<not> separator x"
  shows "trimRight (a @ b) = a @ trimRight b" and "trimRight b \<noteq> []"
proof -
  from assms have "\<exists>x\<in>set (rev b). \<not> separator x" by simp
  then obtain x where "x \<in> set (rev b)" "\<not> separator x" by blast
  then have "dropWhile separator (rev b @ rev a) = dropWhile separator (rev b) @ rev a"
    by (rule dropWhile_append1)
  then show "trimRight (a @ b) = a @ trimRight b" by (simp add: trimRight_def)
  from assms have "dropWhile separator (rev b) \<noteq> []" by (auto simp: dropWhile_eq_Nil_conv)
  then show "trimRight b \<noteq> []" by (simp add: trimRight_def)
qed

lemma trimRight_append_drop:
  assumes "\<forall>x\<in>set b. separator x"
  shows "trimRight (a @ b) = trimRight a"
proof -
  from assms have "\<forall>x\<in>set (rev b). separator x" by simp
  then have "dropWhile separator (rev b @ rev a) = dropWhile separator (rev a)"
    by (intro dropWhile_append2) blast
  then show ?thesis by (simp add: trimRight_def)
qed

lemma HasPrefix_append [simp]: "HasPrefix (pre @ s) pre"
  by (simp add: HasPrefix_def)

lemma sanitize_nonalnum_first:
  assumes "nameRunes lib name = r # rs" and "\<not> alnumRune r"
  shows "sanitizeProjectName lib name =
     (if \<exists>x\<in>set rs. alnumRune x then ''p-'' @ trimRight (map sanitizeRune rs) else ''p'')"
proof -
  have loop: "sanitizeLoop 0 (nameRunes lib name) [] = ''p-'' @ map sanitizeRune rs"
    by (simp only: assms sanitizeLoop_first if_False)
  have trim: "Trim (''p-'' @ map sanitizeRune rs) ''-_'' = trimRight (''p-'' @ map sanitizeRune rs)"
    by (simp add: Trim_eq separator_def)
  show ?thesis
  proof (cases "\<exists>x\<in>set rs. alnumRune x")
    case True
    then have "\<exists>c\<in>set (map sanitizeRune rs). \<not> separator c"
      by (auto simp: sanitizeRune_separator)
    from trimRight_append_keep(1) [OF this, of "''p-''"] True show ?thesis
      using loop trim by (simp add: sanitizeProjectName_def nameRunes_def [symmetric] Let_def)
  next
    case False
    then have "\<forall>c\<in>set (map sanitizeRune rs). separator c"
      by (auto simp: sanitizeRune_separator)
    from trimRight_append_drop [OF this, of "''p-''"] False show ?thesis
      using loop trim
      by (simp add: sanitizeProjectName_def nameRunes_def [symmetric] Let_def trimRight_def
          separator_def)
  qed
qed

lemma sanitize_alnum_first:
  assumes "nameRunes lib name = r # rs" and "alnumRune r"
  shows "sanitizeProjectName lib name = char_of r # trimRight (map sanitizeRune rs)"
proof -
  have loop: "sanitizeLoop 0 (nameRunes lib name) [] = char_of r # map sanitizeRune rs"
    by (simp only: assms sanitizeLoop_first if_True append_Cons append_Nil)
  have ns: "\<not> separator (char_of r)" using assms(2) by (rule alnum_char(2))
  then have trim: "Trim (char_of r # map sanitizeRune rs) ''-_''
      = trimRight (char_of r # map sanitizeRune rs)"
    by (simp add: Trim_eq)
  have "trimRight (char_of r # map sanitizeRune rs) = char_of r # trimRight (map sanitizeRune rs)"
  proof (cases "\<exists>c\<in>set (map sanitizeRune rs). \<not> separator c")
    case True
    from trimRight_append_keep(1) [OF this, of "[char_of r]"] show ?thesis by simp
  next
    case False
    then have all: "\<forall>c\<in>set (map sanitizeRune rs). separator c" by blast
    from trimRight_append_drop [OF all, of "[char_of r]"] trimRight_append_drop [OF all, of "[]"]
    show ?thesis using ns by (simp add: trimRight_def)
  qed
  with loop trim show ?thesis
    by (simp add: sanitizeProjectName_def nameRunes_def [symmetric] Let_def)
qed

lemma sanitize_empty:
  assumes "nameRunes lib name = []"
  shows "sanitizeProjectName lib name = ''project''"
  using assms by (simp add: sanitizeProjectName_def nameRunes_def [symmetric] Let_def Trim_def)

lemma sanitize_slug:
  "sanitizeProjectName lib name \<noteq> [] \<and> (\<forall>c\<in>set (sanitizeProjectName lib name). slugChar c)"
proof (cases "nameRunes lib name")
  case Nil
  then show ?thesis by (simp add: sanitize_empty slugChar_def)
next
  case (Cons r rs)
  have rest: "\<forall>c\<in>set (trimRight (map sanitizeRune rs)). slugChar c"
    using set_trimRight [of "map sanitizeRune rs"] sanitizeRune_slug by auto
  show ?thesis
  proof (cases "alnumRune r")
    case True
    with Cons rest alnum_char(1) [OF True] show ?thesis by (simp add: sanitize_alnum_first)
  next
    case False
    with Cons rest show ?thesis by (simp add: sanitize_nonalnum_first slugChar_def)
  qed
qed

text \<open>
  C6, as the code has it.  For every directory name the sanitized name is not empty and
  consists of characters of \<open>[a-z0-9_-]\<close>; a name without runes gives the literal
  \<open>project\<close>.  When the first rune of the lower-cased name is not a letter or digit, the
  builder starts with \<open>p-\<close> and the trailing separators are trimmed: the result carries
  the prefix \<open>p-\<close>, followed by more, when a letter or digit comes later in the name,
  and is the single letter \<open>p\<close> when none does.
\<close>

theorem sanitizeProjectName_slug:
  "sanitizeProjectName lib name \<noteq> [] \<and>
   (\<forall>c\<in>set (sanitizeProjectName lib name). slugChar c) \<and>
   (nameRunes lib name = [] \<longrightarrow> sanitizeProjectName lib name = ''project'') \<and>
   (nameRunes lib name = r # rs \<and> \<not> alnumRune r \<longrightarrow>
      (if \<exists>x\<in>set rs. alnumRune x
       then HasPrefix (sanitizeProjectName lib name) ''p-'' \<and> 2 < length (sanitizeProjectName lib name)
       else sanitizeProjectName lib name = ''p''))"
proof -
  have "HasPrefix (sanitizeProjectName lib name) ''p-'' \<and> 2 < length (sanitizeProjectName lib name)"
    if "nameRunes lib name = r # rs" and "\<not> alnumRune r" and ex: "\<exists>x\<in>set rs. alnumRune x"
  proof -
    from ex have "\<exists>c\<in>set (map sanitizeRune rs). \<not> separator c"
      by (auto simp: sanitizeRune_separator)
    then have "trimRight (map sanitizeRune rs) \<noteq> []" by (rule trimRight_append_keep(2))
    then have "0 < length (trimRight (map sanitizeRune rs))" by simp
    with that show ?thesis
      using HasPrefix_append [of "''p-''" "trimRight (map sanitizeRune rs)"]
      by (simp add: sanitize_nonalnum_first)
  qed
  moreover have "sanitizeProjectName lib name = ''p''"
    if "nameRunes lib name = r # rs" and "\<not> alnumRune r" and "\<not> (\<exists>x\<in>set rs. alnumRune x)"
    using that by (simp add: sanitize_nonalnum_first)
  ultimately show ?thesis using sanitize_slug sanitize_empty by (auto simp del: )
qed


text \<open>Names evaluated with the ASCII instance of the library.\<close>

lemma sanitize_samples:
  "sanitizeProjectName asciiLib ''_'' = ''p''"
  "sanitizeProjectName asciiLib ''.'' = ''p''"
  "sanitizeProjectName asciiLib ''--'' = ''p''"
  "sanitizeProjectName asciiLib ''.Git_Repo'' = ''p-git_repo''"
  "sanitizeProjectName asciiLib ''My App.v2'' = ''my-app-v2''"
  "sanitizeProjectName asciiLib [] = ''project''"
  by code_simp+

lemma nameRunes_samples:
  "nameRunes asciiLib ''.Git_Repo'' = runeOf CHR ''-'' # map runeOf ''git_repo''"
  "nameRunes asciiLib ''_'' = [runeOf CHR ''_'']"
  "nameRunes asciiLib [] = []"
  by code_simp+


text \<open>
  The names \<open>_\<close>, \<open>.\<close> and \<open>--\<close> do not start with a letter or digit, and their
  sanitized name \<open>p\<close> has no prefix \<open>p-\<close>.
\<close>

theorem sanitizeProjectName_counterexample:
  "sanitizeProjectName asciiLib ''_'' = ''p'' \<and>
   sanitizeProjectName asciiLib ''.'' = ''p'' \<and>
   sanitizeProjectName asciiLib ''--'' = ''p'' \<and>
   \<not> HasPrefix ''p'' ''p-''"
  by (simp add: sanitize_samples HasPrefix_def)

theorem sanitizeProjectName_slug_witness:
  "sanitizeProjectName asciiLib ''.Git_Repo'' = ''p-git_repo'' \<and>
   HasPrefix (sanitizeProjectName asciiLib ''.Git_Repo'') ''p-'' \<and>
   sanitizeProjectName asciiLib ''_'' = ''p'' \<and>
   sanitizeProjectName asciiLib ''My App.v2'' = ''my-app-v2'' \<and>
   sanitizeProjectName asciiLib [] = ''project''"
proof -
  have "alnumRune (runeOf CHR ''g'')"
    by (simp add: alnumRune_def isLower_def runeOf_def)
  then have ex: "\<exists>x\<in>set (map runeOf ''git_repo''). alnumRune x" by simp
  from sanitizeProjectName_slug
    [of asciiLib "''.Git_Repo''" "runeOf CHR ''-''" "map runeOf ''git_repo''"]
    sanitizeProjectName_slug [of asciiLib "''_''" "runeOf CHR ''_''" "[]"]
    sanitizeProjectName_slug [of asciiLib "[]"]
    ex
  show ?thesis
    by (simp only: nameRunes_samples sanitize_samples separator_runes) simp
qed

section \<open>The scan cache\<close>

text \<open>
  C5, as the code has it.  Let the file at \<open>path\<close> have modification time \<open>modTime\<close>
  and checksum \<open>checksum\<close>, and let the cache hold an entry for \<open>path\<close>.  When the
  entry's modification time and checksum both equal the file's, \<open>parseComposeFile\<close>
  returns the cached project and leaves the scanner as it was: nothing is handed to the
  loader.  When either differs, the file is handed to the loader; if that yields a
  project, the entry is replaced by one with the new project and the file's modification
  time and checksum; if it yields an error or no services, the cache is left as it was.
\<close>

theorem scan_cache:
  assumes "Stat host path = Inr modTime" and "fileChecksum lib host path = Inr checksum"
    and "cache s path = Some cached"
  shows
    "(cp_ModTime cached = modTime \<and> cp_CheckSum cached = checksum \<longrightarrow>
        parseComposeFile lib host s path = (Inr (Some (cp_Project cached)), s)) \<and>
     (cp_ModTime cached \<noteq> modTime \<or> cp_CheckSum cached \<noteq> checksum \<longrightarrow>
        loaded (snd (parseComposeFile lib host s path)) = loaded s @ [path] \<and>
        (\<forall>proj. fst (parseComposeFile lib host s path) = Inr (Some proj) \<longrightarrow>
           cache (snd (parseComposeFile lib host s path)) path
             = Some \<lparr>cp_Project = proj, cp_ModTime = modTime, cp_CheckSum = checksum\<rparr>) \<and>
        ((\<forall>proj. fst (parseComposeFile lib host s path) \<noteq> Inr (Some proj)) \<longrightarrow>
           cache (snd (parseComposeFile lib host s path)) = cache s))"
  using assms
  by (auto simp: parseComposeFile_def parseFresh_def Let_def split: option.splits sum.splits)

lemma parseFresh_success:
  assumes "NewProjectOptions host path (deriveProjectName lib path) = None"
    and "LoadProject host path (deriveProjectName lib path) = Inr services"
    and "services \<noteq> []"
  shows "\<exists>proj. fst (parseFresh lib host s path modTime checksum) = Inr (Some proj) \<and>
           Services proj = services \<and> ComposeFilePath proj = path \<and> \<not> Protected proj"
  using assms by (simp add: parseFresh_def Let_def)


text \<open>
  The file has changed (modification time 2, not 1) and now declares no services: it is
  handed to the loader, nothing is returned, and the entry of the cache is still the old
  one.
\<close>

lemma scan_samples:
  "fst (parseComposeFile asciiLib (sampleHost 2 ''services: {}'' []) cachedScanner
     ''/srv/blog/compose.yml'') = Inr None"
  "loaded (snd (parseComposeFile asciiLib (sampleHost 2 ''services: {}'' []) cachedScanner
     ''/srv/blog/compose.yml'')) = [''/srv/blog/compose.yml'']"
  "map_option cp_ModTime (cache (snd (parseComposeFile asciiLib (sampleHost 2 ''services: {}'' [])
     cachedScanner ''/srv/blog/compose.yml'')) ''/srv/blog/compose.yml'') = Some 1"
  "map_option cp_Project (cache (snd (parseComposeFile asciiLib (sampleHost 2 ''services: {}'' [])
     cachedScanner ''/srv/blog/compose.yml'')) ''/srv/blog/compose.yml'')
     = Some (project ''p1'' ''blog'' ''compose.yml'')"
  by (simp_all add: parseComposeFile_def parseFresh_def fileChecksum_def sampleHost_def
      cachedScanner_def asciiLib_def Let_def)

theorem scan_cache_counterexample:
  "Stat (sampleHost 2 ''services: {}'' []) ''/srv/blog/compose.yml'' = Inr 2 \<and>
   map_option cp_ModTime (cache cachedScanner ''/srv/blog/compose.yml'') = Some 1 \<and>
   fst (parseComposeFile asciiLib (sampleHost 2 ''services: {}'' []) cachedScanner
     ''/srv/blog/compose.yml'') = Inr None \<and>
   loaded (snd (parseComposeFile asciiLib (sampleHost 2 ''services: {}'' []) cachedScanner
     ''/srv/blog/compose.yml'')) = [''/srv/blog/compose.yml''] \<and>
   map_option cp_ModTime (cache (snd (parseComposeFile asciiLib (sampleHost 2 ''services: {}'' [])
     cachedScanner ''/srv/blog/compose.yml'')) ''/srv/blog/compose.yml'') = Some 1 \<and>
   map_option cp_Project (cache (snd (parseComposeFile asciiLib (sampleHost 2 ''services: {}'' [])
     cachedScanner ''/srv/blog/compose.yml'')) ''/srv/blog/compose.yml'')
     = Some (project ''p1'' ''blog'' ''compose.yml'')"
  by (simp add: scan_samples) (simp add: sampleHost_def cachedScanner_def)

lemma scan_hit_sample:
  "parseComposeFile asciiLib (sampleHost 1 ''services: {web: {}}'' [''web'']) cachedScanner
     ''/srv/blog/compose.yml'' = (Inr (Some (project ''p1'' ''blog'' ''compose.yml'')), cachedScanner)"
  by (simp add: parseComposeFile_def fileChecksum_def sampleHost_def cachedScanner_def)

theorem scan_cache_witness:
  "parseComposeFile asciiLib (sampleHost 1 ''services: {web: {}}'' [''web'']) cachedScanner
     ''/srv/blog/compose.yml'' = (Inr (Some (project ''p1'' ''blog'' ''compose.yml'')), cachedScanner) \<and>
   loaded (snd (parseComposeFile asciiLib (sampleHost 2 ''services: {web: {}, db: {}}'' [''web'', ''db''])
     cachedScanner ''/srv/blog/compose.yml'')) = [''/srv/blog/compose.yml''] \<and>
   map_option (\<lambda>c. (Services (cp_Project c), cp_ModTime c, cp_CheckSum c))
     (cache (snd (parseComposeFile asciiLib (sampleHost 2 ''services: {web: {}, db: {}}'' [''web'', ''db''])
       cachedScanner ''/srv/blog/compose.yml'')) ''/srv/blog/compose.yml'')
     = Some ([''web'', ''db''], 2, ''services: {web: {}, db: {}}0000000000000000'')"
proof -
  have st: "Stat (sampleHost t c sv) ''/srv/blog/compose.yml'' = Inr t" for t c sv
    by (simp add: sampleHost_def)
  have ck: "fileChecksum asciiLib (sampleHost t c sv) ''/srv/blog/compose.yml''
      = Inr (c @ ''0000000000000000'')" for t c sv
    by (simp add: fileChecksum_def sampleHost_def asciiLib_def)
  have ca: "cache cachedScanner ''/srv/blog/compose.yml''
      = Some \<lparr>cp_Project = project ''p1'' ''blog'' ''compose.yml'', cp_ModTime = 1,
               cp_CheckSum = ''services: {web: {}}0000000000000000''\<rparr>"
    by (simp add: cachedScanner_def asciiLib_def)
  have miss: "\<exists>proj. fst (parseComposeFile asciiLib
      (sampleHost 2 ''services: {web: {}, db: {}}'' [''web'', ''db'']) cachedScanner
      ''/srv/blog/compose.yml'') = Inr (Some proj) \<and> Services proj = [''web'', ''db'']"
    by (simp add: parseComposeFile_def parseFresh_def st ck ca)
       (simp add: sampleHost_def Let_def)
  from scan_cache [OF st ck ca, of 1 "''services: {web: {}}''" "[''web'']"]
    scan_cache [OF st ck ca, of 2 "''services: {web: {}, db: {}}''" "[''web'', ''db'']"]
    miss
  show ?thesis by (auto simp: cachedScanner_def)
qed

section \<open>CPU percentage\<close>

lemma float64_zero_iff: "(float64 w = 0) = (w = 0)"
  by (simp add: float64_def unsigned_eq_0_iff)

lemma float64_pos_iff: "(0 < float64 w) = (w \<noteq> 0)"
proof -
  have "(0 < unat w) = (unat w \<noteq> 0)" by arith
  also have "\<dots> = (w \<noteq> 0)" by (simp add: unsigned_eq_0_iff)
  finally show ?thesis unfolding float64_def by (simp only: of_nat_0_less_iff)
qed

text \<open>
  What holds of \<open>calculateCPUPercent\<close>: it is 0 without a previous sample and when the
  two system-time counters are equal; otherwise, when the CPU-time counters differ, it
  is the quotient of the wrapped differences times the CPU count times 100, the count
  falling back to the length of the per-CPU list and then to 1.  For counters that do not
  decrease the wrapped difference is the difference.
\<close>

lemma calculateCPUPercent_no_previous: "calculateCPUPercent None cur = 0"
  by (simp add: calculateCPUPercent_def)

lemma calculateCPUPercent_equal_system:
  "SystemUsage c = SystemUsage p \<Longrightarrow> calculateCPUPercent (Some p) (Some c) = 0"
  by (simp add: calculateCPUPercent_def Let_def float64_def)

lemma calculateCPUPercent_formula:
  assumes "SystemUsage c \<noteq> SystemUsage p" and "TotalUsage c \<noteq> TotalUsage p"
  shows "calculateCPUPercent (Some p) (Some c) =
     float64 (TotalUsage c - TotalUsage p) / float64 (SystemUsage c - SystemUsage p)
       * (if OnlineCPUs c \<noteq> 0 then float64 (OnlineCPUs c)
          else if PercpuUsage c \<noteq> [] then real (length (PercpuUsage c)) else 1)
       * 100"
  using assms by (simp add: calculateCPUPercent_def Let_def float64_pos_iff float64_zero_iff)

lemma float64_forward_delta:
  fixes a b :: "64 word"
  assumes "a \<le> b"
  shows "float64 (b - a) = real_of_int (uint b - uint a)"
  using assms by (simp add: float64_def unat_sub word_le_nat_alt of_nat_diff)

text \<open>
  C4.  The previous sample was taken while the container ran (CPU time 5000, system time
  1000000, 4 CPUs); the current one is the all-zero sample that the daemon reports for a
  container that no longer runs.  The system-time delta is not positive; the unsigned
  subtraction wraps to \<open>2^64 - 1000000\<close>, the guard on the deltas passes and the result
  is above 100 instead of zero.
\<close>

theorem calculateCPUPercent_counter_backwards:
  "uint (SystemUsage (statsSample 0 0 0)) - uint (SystemUsage (statsSample 5000 1000000 4)) \<le> 0 \<and>
   calculateCPUPercent (Some (statsSample 5000 1000000 4)) (Some (statsSample 0 0 0))
     = 18446744073709546616 / 18446744073708551616 * 100 \<and>
   100 < calculateCPUPercent (Some (statsSample 5000 1000000 4)) (Some (statsSample 0 0 0))"
  by (simp add: calculateCPUPercent_def statsSample_def float64_def Let_def)

end
